theory Spec2Isabelle
  imports Main
begin

section \<open>JavaScript values\<close>

text \<open>
  Strings are lists of code units, written as HOL strings (so the model covers the
  8-bit range of code units). A value of TypeScript type \<open>string | undefined\<close> or
  \<open>string | null\<close> is a \<open>string option\<close>, \<open>None\<close> standing for both
  \<open>undefined\<close> and \<open>null\<close>; the code only ever tests such values for truthiness,
  passes them on, or compares them with \<open>===\<close> against a string.
\<close>

text \<open>JavaScript truthiness of a possibly missing string: \<open>!v\<close> is \<open>\<not> truthy v\<close>.\<close>

definition truthy :: "string option \<Rightarrow> bool" where
  "truthy v = (case v of None \<Rightarrow> False | Some s \<Rightarrow> s \<noteq> [])"

text \<open>\<open>a || b\<close> on possibly missing strings.\<close>

definition js_or :: "string option \<Rightarrow> string option \<Rightarrow> string option" where
  "js_or a b = (if truthy a then a else b)"

text \<open>\<open>s.startsWith(p)\<close> and \<open>s.slice(n)\<close> for \<open>n \<ge> 0\<close>.\<close>

definition startsWith :: "string \<Rightarrow> string \<Rightarrow> bool" where
  "startsWith s p = (take (length p) s = p)"

definition slice :: "string \<Rightarrow> nat \<Rightarrow> string" where
  "slice s n = drop n s"

section \<open>The session cache (utils/redis.ts)\<close>

text \<open>
  The Redis client is modelled by its contents: each key holds a value and the number
  of seconds the entry still has to live. \<open>SETEX\<close> writes value and time-to-live,
  \<open>GET\<close> reads the value, \<open>DEL\<close> removes the key and answers how many keys it
  removed. The passing of time is \<open>elapse\<close>, which drops every entry whose time has run
  out. Connection failures are not modelled.
\<close>

type_synonym redis = "string \<rightharpoonup> (string \<times> nat)"

definition setEx :: "redis \<Rightarrow> string \<Rightarrow> nat \<Rightarrow> string \<Rightarrow> redis" where
  "setEx r key ttl v = r(key \<mapsto> (v, ttl))"

definition get :: "redis \<Rightarrow> string \<Rightarrow> string option" where
  "get r key = map_option fst (r key)"

definition del :: "redis \<Rightarrow> string \<Rightarrow> nat \<times> redis" where
  "del r key = (if r key = None then 0 else 1, r(key := None))"

definition ttl_of :: "redis \<Rightarrow> string \<Rightarrow> nat option" where
  "ttl_of r key = map_option snd (r key)"

definition elapse :: "nat \<Rightarrow> redis \<Rightarrow> redis" where
  "elapse d r =
     (\<lambda>key. case r key of
               None \<Rightarrow> None
             | Some (v, t) \<Rightarrow> if t \<le> d then None else Some (v, t - d))"

text \<open>The key \<open>`session:${tokenId}`\<close>.\<close>

definition session_key :: "string \<Rightarrow> string" where
  "session_key tokenId = ''session:'' @ tokenId"

text \<open>
  \<open>storeSession(userId, tokenId, ttl = config.session.expiry)\<close>: the third argument is
  optional (\<open>None\<close> when the caller leaves it out) and defaults to the configured session
  expiry, passed here as \<open>expiry\<close>. The function has no return statement, so the awaited
  result is \<open>undefined\<close>: the first component of the result is always \<open>None\<close>.
\<close>

definition storeSession ::
  "nat \<Rightarrow> redis \<Rightarrow> string \<Rightarrow> string \<Rightarrow> nat option \<Rightarrow> string option \<times> redis" where
  "storeSession expiry r userId tokenId ttl_arg =
     (let ttl = (case ttl_arg of None \<Rightarrow> expiry | Some t \<Rightarrow> t);
          key = session_key tokenId
      in (None, setEx r key ttl userId))"

definition validateSession :: "redis \<Rightarrow> string \<Rightarrow> string option" where
  "validateSession r tokenId = get r (session_key tokenId)"

definition invalidateSession :: "redis \<Rightarrow> string \<Rightarrow> redis" where
  "invalidateSession r tokenId = snd (del r (session_key tokenId))"

section \<open>The environment\<close>

text \<open>
  The bearer credential's payload (utils/jwt.ts, \<open>TokenPayload\<close>); its \<open>email\<close> field
  is \<open>token_email\<close> here.
\<close>

record TokenPayload =
  userId :: string
  token_email :: string
  tokenId :: string

text \<open>
  Everything the code obtains from outside itself is a field of one environment record:
  \<^item> \<open>hashPassword\<close> and \<open>comparePassword\<close> of utils/password.ts, whose source file is
    absent, taken as parameters;
  \<^item> the library calls \<open>jwt.sign\<close> and \<open>jwt.verify\<close> with the configured secret and
    lifetime, \<open>jwt_verify\<close> answering \<open>None\<close> where the library throws;
  \<^item> \<open>config.session.expiry\<close>;
  \<^item> the identifier the next call of \<open>uuidv4()\<close> returns, the identifier the next
    \<open>gen_random_uuid()\<close> of the users table yields, and \<open>CURRENT_TIMESTAMP\<close>.
\<close>

record env =
  hashPassword :: "string \<Rightarrow> string"
  comparePassword :: "string \<Rightarrow> string \<Rightarrow> bool"
  jwt_sign :: "TokenPayload \<Rightarrow> string"
  jwt_verify :: "string \<Rightarrow> TokenPayload option"
  session_expiry :: nat
  uuidv4 :: string
  gen_random_uuid :: string
  current_timestamp :: nat

definition generateToken :: "env \<Rightarrow> string \<Rightarrow> string \<Rightarrow> string \<Rightarrow> string" where
  "generateToken env uid mail tid =
     jwt_sign env \<lparr>userId = uid, token_email = mail, tokenId = tid\<rparr>"

definition verifyToken :: "env \<Rightarrow> string \<Rightarrow> TokenPayload option" where
  "verifyToken env token = jwt_verify env token"

section \<open>The auth middleware (middleware/auth.ts)\<close>

text \<open>
  The middleware either answers the request itself (status and error text) or calls
  \<open>next()\<close> with \<open>req.user\<close> set to the payload.
\<close>

datatype middleware_result = Responded nat string | Next TokenPayload

definition authMiddleware :: "env \<Rightarrow> redis \<Rightarrow> string option \<Rightarrow> middleware_result" where
  "authMiddleware env r authHeader =
     (case authHeader of
        None \<Rightarrow> Responded 401 ''Missing authorization token''
      | Some h \<Rightarrow>
          if h = [] \<or> \<not> startsWith h ''Bearer ''
          then Responded 401 ''Missing authorization token''
          else (case verifyToken env (slice h 7) of
                  None \<Rightarrow> Responded 401 ''Invalid token''
                | Some payload \<Rightarrow>
                    if \<not> truthy (validateSession r (tokenId payload))
                    then Responded 401 ''Session expired or invalid''
                    else Next payload))"

definition admitted :: "middleware_result \<Rightarrow> bool" where
  "admitted res = (case res of Next _ \<Rightarrow> True | Responded _ _ \<Rightarrow> False)"

definition status_of :: "middleware_result \<Rightarrow> nat option" where
  "status_of res = (case res of Next _ \<Rightarrow> None | Responded s _ \<Rightarrow> Some s)"

section \<open>The users table (database/init.ts, models/User.ts)\<close>

text \<open>
  A row of the table \<open>users\<close>, with the fields of the interface \<open>User\<close>; the column
  \<open>id\<close> is \<open>id_user\<close> here. Nullable columns are options, timestamps are numbers.
\<close>

record User =
  id_user :: string
  email :: string
  password_hash :: "string option"
  first_name :: "string option"
  last_name :: "string option"
  google_id :: "string option"
  auth_method :: string
  profile_picture_url :: "string option"
  created_at :: nat
  updated_at :: nat
  is_active :: bool

text \<open>
  A thrown value: a JavaScript \<open>Error\<close> with its message, or an error of the database
  driver: for a violated uniqueness constraint, with the constraint's name, or for a
  value that is too long for its column, with the column's type. The driver's message
  puts the constraint's name between double quotes (the character \<open>0x22\<close>).
\<close>

datatype error = Error string | UniqueViolation string | ValueTooLong string

definition message :: "error \<Rightarrow> string" where
  "message e =
     (case e of
        Error m \<Rightarrow> m
      | UniqueViolation c \<Rightarrow>
          ''duplicate key value violates unique constraint '' @ [CHR 0x22] @ c @ [CHR 0x22]
      | ValueTooLong ty \<Rightarrow> ''value too long for type '' @ ty)"

text \<open>
  \<open>String.prototype.toLowerCase\<close> on 8-bit code units: the letters A to Z, and the
  Latin-1 capitals U+00C0 to U+00DE other than the multiplication sign U+00D7.
\<close>

definition lower_char :: "char \<Rightarrow> char" where
  "lower_char c =
     (let n = (of_char c :: nat)
      in if (65 \<le> n \<and> n \<le> 90) \<or> (192 \<le> n \<and> n \<le> 222 \<and> n \<noteq> 215)
         then char_of (n + 32) else c)"

definition toLowerCase :: "string \<Rightarrow> string" where
  "toLowerCase s = map lower_char s"

text \<open>
  The schema's constraints: \<open>id\<close> is the primary key, \<open>email\<close> is \<open>UNIQUE\<close>, and
  \<open>google_id\<close> is \<open>UNIQUE\<close> where it is not null. The first violated constraint of a
  table is reported by \<open>violation\<close>.
\<close>

definition non_null :: "'a option list \<Rightarrow> 'a list" where
  "non_null xs = concat (map (\<lambda>x. case x of None \<Rightarrow> [] | Some v \<Rightarrow> [v]) xs)"

definition violation :: "User list \<Rightarrow> error option" where
  "violation rows =
     (if \<not> distinct (map id_user rows) then Some (UniqueViolation ''users_pkey'')
      else if \<not> distinct (map email rows) then Some (UniqueViolation ''users_email_key'')
      else if \<not> distinct (non_null (map google_id rows))
           then Some (UniqueViolation ''users_google_id_key'')
      else None)"

text \<open>The argument object of \<open>UserModel.create\<close>.\<close>

record UserData =
  data_email :: string
  data_password_hash :: "string option"
  data_first_name :: "string option"
  data_last_name :: "string option"
  data_google_id :: "string option"
  data_auth_method :: string
  data_profile_picture_url :: "string option"

text \<open>
  The schema's column widths: \<open>email\<close>, \<open>password_hash\<close> and \<open>google_id\<close> are
  \<open>VARCHAR(255)\<close>, \<open>first_name\<close> and \<open>last_name\<close> \<open>VARCHAR(100)\<close>, \<open>auth_method\<close>
  \<open>VARCHAR(50)\<close> and \<open>profile_picture_url\<close> \<open>VARCHAR(500)\<close>. A value of more than
  \<open>n\<close> characters is refused by a \<open>VARCHAR(n)\<close> column, unless the characters beyond
  the \<open>n\<close>-th are all spaces, which are then cut off. \<open>width_error\<close> reports the first
  column, in the order of the schema, whose value is refused.
  Strings are taken to be text that the database stores: the character \<open>U+0000\<close>, which
  it refuses in every text value, is outside this model.
\<close>

definition too_long :: "nat \<Rightarrow> string \<Rightarrow> bool" where
  "too_long n v = (n < length v \<and> \<not> list_all (\<lambda>c. c = CHR '' '') (drop n v))"

definition too_long_opt :: "nat \<Rightarrow> string option \<Rightarrow> bool" where
  "too_long_opt n v = (case v of None \<Rightarrow> False | Some s \<Rightarrow> too_long n s)"

definition width_error ::
  "string \<Rightarrow> string option \<Rightarrow> string option \<Rightarrow> string option \<Rightarrow> string option \<Rightarrow> string
     \<Rightarrow> string option \<Rightarrow> error option" where
  "width_error mail hash fname lname gid method picture =
     (if too_long 255 mail then Some (ValueTooLong ''character varying(255)'')
      else if too_long_opt 255 hash then Some (ValueTooLong ''character varying(255)'')
      else if too_long_opt 100 fname then Some (ValueTooLong ''character varying(100)'')
      else if too_long_opt 100 lname then Some (ValueTooLong ''character varying(100)'')
      else if too_long_opt 255 gid then Some (ValueTooLong ''character varying(255)'')
      else if too_long 50 method then Some (ValueTooLong ''character varying(50)'')
      else if too_long_opt 500 picture then Some (ValueTooLong ''character varying(500)'')
      else None)"

text \<open>
  \<open>INSERT ... RETURNING *\<close> with the values \<open>userData.email\<close>,
  \<open>userData.password_hash || null\<close> and so on: \<open>insert_error\<close> is the refusal of a value
  that is too long, \<open>new_row\<close> the row otherwise, which takes the defaults of the schema
  for \<open>id\<close>, the timestamps and \<open>is_active\<close>. The statement fails, leaving the table as
  it was, when a value is refused or the table with the new row violates a constraint.
\<close>

definition insert_error :: "UserData \<Rightarrow> error option" where
  "insert_error userData =
     width_error (data_email userData)
       (js_or (data_password_hash userData) None)
       (js_or (data_first_name userData) None)
       (js_or (data_last_name userData) None)
       (js_or (data_google_id userData) None)
       (data_auth_method userData)
       (js_or (data_profile_picture_url userData) None)"

definition new_row :: "env \<Rightarrow> UserData \<Rightarrow> User" where
  "new_row env userData =
     \<lparr> id_user = gen_random_uuid env,
       email = take 255 (data_email userData),
       password_hash = map_option (take 255) (js_or (data_password_hash userData) None),
       first_name = map_option (take 100) (js_or (data_first_name userData) None),
       last_name = map_option (take 100) (js_or (data_last_name userData) None),
       google_id = map_option (take 255) (js_or (data_google_id userData) None),
       auth_method = take 50 (data_auth_method userData),
       profile_picture_url =
         map_option (take 500) (js_or (data_profile_picture_url userData) None),
       created_at = current_timestamp env,
       updated_at = current_timestamp env,
       is_active = True \<rparr>"

definition UserModel_create :: "env \<Rightarrow> User list \<Rightarrow> UserData \<Rightarrow> error + (User \<times> User list)" where
  "UserModel_create env rows userData =
     (case insert_error userData of
        Some e \<Rightarrow> Inl e
      | None \<Rightarrow>
          (case violation (rows @ [new_row env userData]) of
             Some e \<Rightarrow> Inl e
           | None \<Rightarrow> Inr (new_row env userData, rows @ [new_row env userData])))"

text \<open>\<open>result.rows[0] || null\<close> of a \<open>SELECT * ... WHERE\<close> is the first matching row.\<close>

definition UserModel_findByEmail :: "User list \<Rightarrow> string \<Rightarrow> User option" where
  "UserModel_findByEmail rows mail =
     find (\<lambda>r. email r = toLowerCase mail \<and> is_active r) rows"

definition UserModel_findById :: "User list \<Rightarrow> string \<Rightarrow> User option" where
  "UserModel_findById rows uid = find (\<lambda>r. id_user r = uid \<and> is_active r) rows"

definition UserModel_findByGoogleId :: "User list \<Rightarrow> string \<Rightarrow> User option" where
  "UserModel_findByGoogleId rows gid =
     find (\<lambda>r. google_id r = Some gid \<and> is_active r) rows"

text \<open>
  The argument \<open>updates\<close> of \<open>UserModel.update\<close>, a partial object: a field is \<open>None\<close>
  when the key is absent and \<open>Some v\<close> when the key is present with value \<open>v\<close> (for a
  nullable column \<open>v\<close> is itself an option, an undefined value being sent as null).
\<close>

record Updates =
  upd_email :: "string option"
  upd_password_hash :: "string option option"
  upd_first_name :: "string option option"
  upd_last_name :: "string option option"
  upd_google_id :: "string option option"
  upd_auth_method :: "string option"
  upd_profile_picture_url :: "string option option"
  upd_is_active :: "bool option"

definition no_keys :: "Updates \<Rightarrow> bool" where
  "no_keys u =
     (upd_email u = None \<and> upd_password_hash u = None \<and> upd_first_name u = None \<and>
      upd_last_name u = None \<and> upd_google_id u = None \<and> upd_auth_method u = None \<and>
      upd_profile_picture_url u = None \<and> upd_is_active u = None)"

text \<open>
  The columns of a row after \<open>SET\<close>, each new value cut to the width of its column, and
  the refusal of a new value that is too long (a key that is absent sets nothing and
  cannot be refused).
\<close>

definition set_columns :: "Updates \<Rightarrow> nat \<Rightarrow> User \<Rightarrow> User" where
  "set_columns u now r =
     r \<lparr> email := (case upd_email u of None \<Rightarrow> email r | Some v \<Rightarrow> take 255 v),
         password_hash :=
           (case upd_password_hash u of
              None \<Rightarrow> password_hash r | Some v \<Rightarrow> map_option (take 255) v),
         first_name :=
           (case upd_first_name u of None \<Rightarrow> first_name r | Some v \<Rightarrow> map_option (take 100) v),
         last_name :=
           (case upd_last_name u of None \<Rightarrow> last_name r | Some v \<Rightarrow> map_option (take 100) v),
         google_id :=
           (case upd_google_id u of None \<Rightarrow> google_id r | Some v \<Rightarrow> map_option (take 255) v),
         auth_method := (case upd_auth_method u of None \<Rightarrow> auth_method r | Some v \<Rightarrow> take 50 v),
         profile_picture_url :=
           (case upd_profile_picture_url u of
              None \<Rightarrow> profile_picture_url r | Some v \<Rightarrow> map_option (take 500) v),
         is_active := (case upd_is_active u of None \<Rightarrow> is_active r | Some v \<Rightarrow> v),
         updated_at := now \<rparr>"

definition update_error :: "Updates \<Rightarrow> error option" where
  "update_error u =
     width_error (case upd_email u of None \<Rightarrow> [] | Some v \<Rightarrow> v)
       (case upd_password_hash u of None \<Rightarrow> None | Some v \<Rightarrow> v)
       (case upd_first_name u of None \<Rightarrow> None | Some v \<Rightarrow> v)
       (case upd_last_name u of None \<Rightarrow> None | Some v \<Rightarrow> v)
       (case upd_google_id u of None \<Rightarrow> None | Some v \<Rightarrow> v)
       (case upd_auth_method u of None \<Rightarrow> [] | Some v \<Rightarrow> v)
       (case upd_profile_picture_url u of None \<Rightarrow> None | Some v \<Rightarrow> v)"

text \<open>
  \<open>UPDATE users SET ... WHERE id = $n RETURNING *\<close>, which does not look at
  \<open>is_active\<close>; with no key to set, the method is \<open>findById\<close>. The statement fails,
  leaving the table as it was, when a new value is refused or the table with the row
  changed violates a constraint.
\<close>

definition UserModel_update ::
  "env \<Rightarrow> User list \<Rightarrow> string \<Rightarrow> Updates \<Rightarrow> error + (User option \<times> User list)" where
  "UserModel_update env rows uid updates =
     (if no_keys updates then Inr (UserModel_findById rows uid, rows)
      else
        (case update_error updates of
           Some e \<Rightarrow> Inl e
         | None \<Rightarrow>
             (let rows' = map (\<lambda>r. if id_user r = uid
                                   then set_columns updates (current_timestamp env) r else r) rows
              in case violation rows' of
                   Some e \<Rightarrow> Inl e
                 | None \<Rightarrow> Inr (find (\<lambda>r. id_user r = uid) rows', rows'))))"

text \<open>The profile returned by \<open>getUserProfile\<close>: the row without \<open>password_hash\<close>.\<close>

record SafeUser =
  safe_id :: string
  safe_email :: string
  safe_first_name :: "string option"
  safe_last_name :: "string option"
  safe_google_id :: "string option"
  safe_auth_method :: string
  safe_profile_picture_url :: "string option"
  safe_created_at :: nat
  safe_updated_at :: nat
  safe_is_active :: bool

definition UserModel_getUserProfile :: "User list \<Rightarrow> string \<Rightarrow> SafeUser option" where
  "UserModel_getUserProfile rows uid =
     (case UserModel_findById rows uid of
        None \<Rightarrow> None
      | Some user \<Rightarrow>
          Some \<lparr> safe_id = id_user user, safe_email = email user,
                 safe_first_name = first_name user, safe_last_name = last_name user,
                 safe_google_id = google_id user, safe_auth_method = auth_method user,
                 safe_profile_picture_url = profile_picture_url user,
                 safe_created_at = created_at user, safe_updated_at = updated_at user,
                 safe_is_active = is_active user \<rparr>)"

definition UserModel_existsByEmail :: "User list \<Rightarrow> string \<Rightarrow> bool" where
  "UserModel_existsByEmail rows mail = (filter (\<lambda>r. email r = toLowerCase mail) rows \<noteq> [])"

definition UserModel_existsByGoogleId :: "User list \<Rightarrow> string \<Rightarrow> bool" where
  "UserModel_existsByGoogleId rows gid = (filter (\<lambda>r. google_id r = Some gid) rows \<noteq> [])"

section \<open>The auth service (services/AuthService.ts)\<close>

text \<open>The two stores the service works on.\<close>

record state =
  users :: "User list"
  sessions :: redis

text \<open>The interface \<open>AuthResponse\<close>; the fields of its \<open>user\<close> object are prefixed.\<close>

record UserView =
  view_id :: string
  view_email :: string
  view_first_name :: "string option"
  view_last_name :: "string option"
  view_profile_picture_url :: "string option"
  view_auth_method :: string

record AuthResponse =
  accessToken :: string
  user :: UserView

text \<open>
  The test of \<open>/^[^\s@]+@[^\s@]+\.[^\s@]+$/\<close>. \<open>is_space\<close> is the class \<open>\s\<close> on 8-bit
  code units, \<open>plain_char\<close> the class \<open>[^\s@]\<close>. \<open>email_pattern\<close> is the language of
  the expression, \<open>test_email\<close> decides it: one run of plain characters, an at sign, then
  plain characters only with a dot that is neither the first nor the last of them.
\<close>

definition is_space :: "char \<Rightarrow> bool" where
  "is_space c = ((of_char c :: nat) \<in> set [9, 10, 11, 12, 13, 32, 160])"

definition plain_char :: "char \<Rightarrow> bool" where
  "plain_char c = (\<not> is_space c \<and> c \<noteq> CHR ''@'')"

definition email_pattern :: "string \<Rightarrow> bool" where
  "email_pattern s =
     (\<exists>a b c. s = a @ ''@'' @ b @ ''.'' @ c \<and> a \<noteq> [] \<and> b \<noteq> [] \<and> c \<noteq> [] \<and>
              list_all plain_char a \<and> list_all plain_char b \<and> list_all plain_char c)"

definition test_email :: "string \<Rightarrow> bool" where
  "test_email s =
     (let a = takeWhile plain_char s; rest = dropWhile plain_char s
      in a \<noteq> [] \<and>
         (case rest of
            [] \<Rightarrow> False
          | x # d \<Rightarrow> x = CHR ''@'' \<and> list_all plain_char d \<and> CHR ''.'' \<in> set (butlast (tl d))))"

text \<open>
  The last steps of \<open>register\<close>, \<open>login\<close> and \<open>googleAuth\<close>, which the three methods
  repeat word for word: draw a token identifier, sign the token, store the session with
  the configured expiry, and build the response from the listed fields of the user.
\<close>

definition issue_session :: "env \<Rightarrow> redis \<Rightarrow> User \<Rightarrow> AuthResponse \<times> redis" where
  "issue_session env r usr =
     (let tid = uuidv4 env;
          token = generateToken env (id_user usr) (email usr) tid;
          r' = snd (storeSession (session_expiry env) r (id_user usr) tid
                      (Some (session_expiry env)))
      in (\<lparr> accessToken = token,
             user = \<lparr> view_id = id_user usr, view_email = email usr,
                      view_first_name = first_name usr, view_last_name = last_name usr,
                      view_profile_picture_url = profile_picture_url usr,
                      view_auth_method = auth_method usr \<rparr> \<rparr>, r'))"

text \<open>
  \<open>register\<close> and \<open>login\<close> receive the fields of the request body as they are, so an
  argument may be missing. A failing call leaves both stores as they were, so an error
  is returned without a state.
\<close>

definition AuthService_register ::
  "env \<Rightarrow> state \<Rightarrow> string option \<Rightarrow> string option \<Rightarrow> string option \<Rightarrow> string option
     \<Rightarrow> error + (AuthResponse \<times> state)" where
  "AuthService_register env st email_arg password_arg firstName lastName =
     (case (email_arg, password_arg) of
        (Some mail, Some password) \<Rightarrow>
          if mail = [] \<or> password = [] then Inl (Error ''Email and password are required'')
          else if \<not> test_email mail then Inl (Error ''Invalid email format'')
          else if length password < 6
               then Inl (Error ''Password must be at least 6 characters'')
          else (case UserModel_findByEmail (users st) mail of
                  Some existingUser \<Rightarrow> Inl (Error ''Email already registered'')
                | None \<Rightarrow>
                    (let passwordHash = hashPassword env password
                     in (case UserModel_create env (users st)
                                \<lparr> data_email = toLowerCase mail,
                                  data_password_hash = Some passwordHash,
                                  data_first_name = firstName,
                                  data_last_name = lastName,
                                  data_google_id = None,
                                  data_auth_method = ''email'',
                                  data_profile_picture_url = None \<rparr> of
                           Inl e \<Rightarrow> Inl e
                         | Inr (usr, rows') \<Rightarrow>
                             (let (response, r') = issue_session env (sessions st) usr
                              in Inr (response, \<lparr> users = rows', sessions = r' \<rparr>)))))
      | _ \<Rightarrow> Inl (Error ''Email and password are required''))"

definition AuthService_login ::
  "env \<Rightarrow> state \<Rightarrow> string option \<Rightarrow> string option \<Rightarrow> error + (AuthResponse \<times> state)" where
  "AuthService_login env st email_arg password_arg =
     (case (email_arg, password_arg) of
        (Some mail, Some password) \<Rightarrow>
          if mail = [] \<or> password = [] then Inl (Error ''Email and password are required'')
          else (case UserModel_findByEmail (users st) mail of
                  None \<Rightarrow> Inl (Error ''Invalid email or password'')
                | Some usr \<Rightarrow>
                    (case password_hash usr of
                       None \<Rightarrow> Inl (Error ''This account uses a different authentication method'')
                     | Some h \<Rightarrow>
                         if h = []
                         then Inl (Error ''This account uses a different authentication method'')
                         else if \<not> comparePassword env password h
                         then Inl (Error ''Invalid email or password'')
                         else (let (response, r') = issue_session env (sessions st) usr
                               in Inr (response, st \<lparr> sessions := r' \<rparr>))))
      | _ \<Rightarrow> Inl (Error ''Email and password are required''))"

text \<open>
  The profile handed over by the identity provider; \<open>emails\<close> and \<open>photos\<close> are arrays
  of objects with one field \<open>value\<close>, modelled by the list of these values.
\<close>

record Profile =
  profile_id :: string
  displayName :: "string option"
  emails :: "string list option"
  photos :: "string list option"

text \<open>\<open>xs?.[0]?.value\<close>, \<open>s.split(c)\<close> and the element of an array at an index.\<close>

definition first_value :: "string list option \<Rightarrow> string option" where
  "first_value xs = (case xs of None \<Rightarrow> None | Some [] \<Rightarrow> None | Some (v # _) \<Rightarrow> Some v)"

fun split :: "string \<Rightarrow> char \<Rightarrow> string list" where
  "split [] sep = [[]]"
| "split (c # cs) sep =
     (if c = sep then [] # split cs sep
      else (case split cs sep of [] \<Rightarrow> [[c]] | w # ws \<Rightarrow> (c # w) # ws))"

definition element :: "'a list \<Rightarrow> nat \<Rightarrow> 'a option" where
  "element xs i = (if i < length xs then Some (xs ! i) else None)"

definition AuthService_googleAuth ::
  "env \<Rightarrow> state \<Rightarrow> Profile \<Rightarrow> error + (AuthResponse \<times> state)" where
  "AuthService_googleAuth env st profile =
     (let googleId = profile_id profile;
          mail_opt = first_value (emails profile);
          name = (case js_or (displayName profile) (Some []) of None \<Rightarrow> [] | Some d \<Rightarrow> d);
          profilePictureUrl = first_value (photos profile)
      in case mail_opt of
           None \<Rightarrow> Inl (Error ''Email not provided by Google'')
         | Some mail \<Rightarrow>
             if mail = [] then Inl (Error ''Email not provided by Google'')
             else
               (case (case UserModel_findByGoogleId (users st) googleId of
                        Some usr \<Rightarrow> Inr (Some usr, users st)
                      | None \<Rightarrow>
                          (case UserModel_findByEmail (users st) mail of
                             None \<Rightarrow>
                               (case UserModel_create env (users st)
                                       \<lparr> data_email = toLowerCase mail,
                                         data_password_hash = None,
                                         data_first_name = element (split name CHR '' '') 0,
                                         data_last_name = element (split name CHR '' '') 1,
                                         data_google_id = Some googleId,
                                         data_auth_method = ''google'',
                                         data_profile_picture_url = profilePictureUrl \<rparr> of
                                  Inl e \<Rightarrow> Inl e
                                | Inr (usr, rows') \<Rightarrow> Inr (Some usr, rows'))
                           | Some usr \<Rightarrow>
                               UserModel_update env (users st) (id_user usr)
                                 \<lparr> upd_email = None, upd_password_hash = None,
                                   upd_first_name = None, upd_last_name = None,
                                   upd_google_id = Some (Some googleId),
                                   upd_auth_method = Some ''google'',
                                   upd_profile_picture_url =
                                     Some (js_or profilePictureUrl (profile_picture_url usr)),
                                   upd_is_active = None \<rparr>)) of
                  Inl e \<Rightarrow> Inl e
                | Inr (None, rows') \<Rightarrow> Inl (Error ''Failed to authenticate with Google'')
                | Inr (Some usr, rows') \<Rightarrow>
                    (let (response, r') = issue_session env (sessions st) usr
                     in Inr (response, \<lparr> users = rows', sessions = r' \<rparr>))))"

definition AuthService_logout :: "state \<Rightarrow> string \<Rightarrow> state" where
  "AuthService_logout st tid = st \<lparr> sessions := invalidateSession (sessions st) tid \<rparr>"

text \<open>
  \<open>validateSession(tokenId, userId)\<close> of the service calls \<open>storeSession\<close> without a
  time-to-live and compares what that call resolves to with \<open>userId\<close>.
\<close>

definition AuthService_validateSession :: "env \<Rightarrow> state \<Rightarrow> string \<Rightarrow> string \<Rightarrow> bool \<times> state" where
  "AuthService_validateSession env st tid uid =
     (let (storedUserId, r') = storeSession (session_expiry env) (sessions st) uid tid None
      in (storedUserId = Some uid, st \<lparr> sessions := r' \<rparr>))"

section \<open>The HTTP boundary (controllers/AuthController.ts, routes/auth.ts)\<close>

text \<open>
  A JSON body is \<open>{success: true, message, data}\<close> (message or data may be left out),
  \<open>{success: false, error}\<close> or \<open>{error}\<close>; a response is a status with a body.
\<close>

datatype 'a body =
    SuccessBody "string option" "'a option"
  | FailureBody string
  | ErrorBody string

type_synonym 'a response = "nat \<times> 'a body"

text \<open>\<open>error.message || fallback\<close>.\<close>

definition message_or :: "error \<Rightarrow> string \<Rightarrow> string" where
  "message_or e fallback = (if message e = [] then fallback else message e)"


definition AuthController_login ::
  "env \<Rightarrow> state \<Rightarrow> string option \<Rightarrow> string option \<Rightarrow> AuthResponse response \<times> state" where
  "AuthController_login env st email_arg password_arg =
     (case AuthService_login env st email_arg password_arg of
        Inr (result, st') \<Rightarrow> ((200, SuccessBody (Some ''Login successful'') (Some result)), st')
      | Inl e \<Rightarrow> ((401, FailureBody (message_or e ''Login failed'')), st))"

definition AuthController_logout ::
  "state \<Rightarrow> TokenPayload option \<Rightarrow> unit response \<times> state" where
  "AuthController_logout st req_user =
     (case req_user of
        None \<Rightarrow> ((401, ErrorBody ''Not authenticated''), st)
      | Some payload \<Rightarrow>
          ((200, SuccessBody (Some ''Logout successful'') None),
           AuthService_logout st (tokenId payload)))"

definition AuthController_me :: "state \<Rightarrow> TokenPayload option \<Rightarrow> SafeUser response" where
  "AuthController_me st req_user =
     (case req_user of
        None \<Rightarrow> (401, ErrorBody ''Not authenticated'')
      | Some payload \<Rightarrow>
          (case UserModel_getUserProfile (users st) (userId payload) of
             None \<Rightarrow> (404, ErrorBody ''User not found'')
           | Some usr \<Rightarrow> (200, SuccessBody None (Some usr))))"

text \<open>
  The routes \<open>POST /auth/logout\<close> and \<open>GET /auth/me\<close>: the middleware first, the
  controller after it when the middleware calls \<open>next()\<close>.
\<close>

definition route_logout :: "env \<Rightarrow> state \<Rightarrow> string option \<Rightarrow> unit response \<times> state" where
  "route_logout env st authHeader =
     (case authMiddleware env (sessions st) authHeader of
        Responded code msg \<Rightarrow> ((code, ErrorBody msg), st)
      | Next payload \<Rightarrow> AuthController_logout st (Some payload))"

definition route_me :: "env \<Rightarrow> state \<Rightarrow> string option \<Rightarrow> SafeUser response" where
  "route_me env st authHeader =
     (case authMiddleware env (sessions st) authHeader of
        Responded code msg \<Rightarrow> (code, ErrorBody msg)
      | Next payload \<Rightarrow> AuthController_me st (Some payload))"

section \<open>Well-formed stores\<close>

text \<open>
  The value of a session entry is the identifier of a user, which the table generates
  as a UUID: it is never the empty string.
\<close>

definition session_values_ok :: "redis \<Rightarrow> bool" where
  "session_values_ok r = (\<forall>key uid t. r key = Some (uid, t) \<longrightarrow> uid \<noteq> [])"

text \<open>
  The stores as the service keeps them: the users table satisfies its constraints, no
  user has an empty identifier, and so no session entry holds one.
\<close>

definition well_formed :: "state \<Rightarrow> bool" where
  "well_formed st =
     (violation (users st) = None \<and> list_all (\<lambda>r. id_user r \<noteq> []) (users st)
      \<and> session_values_ok (sessions st))"

section \<open>Rows and results of the service\<close>

text \<open>
  The object that \<open>register\<close> hands to \<open>UserModel.create\<close>, with the email in lower
  case and the hash of the secret, and the row the table then stores.
\<close>

definition register_data ::
  "env \<Rightarrow> string \<Rightarrow> string \<Rightarrow> string option \<Rightarrow> string option \<Rightarrow> UserData" where
  "register_data env mail password firstName lastName =
     \<lparr> data_email = toLowerCase mail,
       data_password_hash = Some (hashPassword env password),
       data_first_name = firstName,
       data_last_name = lastName,
       data_google_id = None,
       data_auth_method = ''email'',
       data_profile_picture_url = None \<rparr>"

definition registered_row ::
  "env \<Rightarrow> string \<Rightarrow> string \<Rightarrow> string option \<Rightarrow> string option \<Rightarrow> User" where
  "registered_row env mail password firstName lastName =
     new_row env (register_data env mail password firstName lastName)"

text \<open>
  What \<open>googleAuth\<close> computes on its way: the display name \<open>profile.displayName || ""\<close>,
  the object it passes to \<open>UserModel.create\<close> and the row the table then stores, the
  updates it passes to \<open>UserModel.update\<close> and the row they turn a record into.
\<close>

definition display_name :: "Profile \<Rightarrow> string" where
  "display_name profile = (case js_or (displayName profile) (Some []) of None \<Rightarrow> [] | Some d \<Rightarrow> d)"

definition google_data :: "Profile \<Rightarrow> string \<Rightarrow> UserData" where
  "google_data profile mail =
     \<lparr> data_email = toLowerCase mail,
       data_password_hash = None,
       data_first_name = element (split (display_name profile) CHR '' '') 0,
       data_last_name = element (split (display_name profile) CHR '' '') 1,
       data_google_id = Some (profile_id profile),
       data_auth_method = ''google'',
       data_profile_picture_url = first_value (photos profile) \<rparr>"

definition created_row :: "env \<Rightarrow> Profile \<Rightarrow> string \<Rightarrow> User" where
  "created_row env profile mail = new_row env (google_data profile mail)"

definition link_updates :: "Profile \<Rightarrow> User \<Rightarrow> Updates" where
  "link_updates profile usr =
     \<lparr> upd_email = None, upd_password_hash = None,
       upd_first_name = None, upd_last_name = None,
       upd_google_id = Some (Some (profile_id profile)),
       upd_auth_method = Some ''google'',
       upd_profile_picture_url =
         Some (js_or (first_value (photos profile)) (profile_picture_url usr)),
       upd_is_active = None \<rparr>"

definition linked_row :: "env \<Rightarrow> Profile \<Rightarrow> User \<Rightarrow> User" where
  "linked_row env profile usr =
     set_columns (link_updates profile usr) (current_timestamp env) usr"

text \<open>A possibly missing value of at most \<open>n\<close> characters.\<close>

definition fits :: "nat \<Rightarrow> string option \<Rightarrow> bool" where
  "fits n v = (case v of None \<Rightarrow> True | Some s \<Rightarrow> length s \<le> n)"

text \<open>
  The successful result of a method that ends by issuing a session for \<open>usr\<close> and
  leaves the users table as \<open>rows'\<close>; and what such a result says: the access token is
  the signed payload with the user's id and email and the token identifier just drawn,
  the user view lists the six public fields, and the session cache has gained the
  entry of that token identifier with the user's id and the configured expiry.
\<close>

definition succeed :: "env \<Rightarrow> state \<Rightarrow> User \<Rightarrow> User list \<Rightarrow> error + (AuthResponse \<times> state)" where
  "succeed env st usr rows' =
     Inr (fst (issue_session env (sessions st) usr),
          \<lparr> users = rows', sessions = snd (issue_session env (sessions st) usr) \<rparr>)"

definition issued_for :: "env \<Rightarrow> state \<Rightarrow> User \<Rightarrow> AuthResponse \<Rightarrow> state \<Rightarrow> bool" where
  "issued_for env st usr response st' =
     (accessToken response
        = jwt_sign env \<lparr>userId = id_user usr, token_email = email usr, tokenId = uuidv4 env\<rparr>
      \<and> user response
        = \<lparr> view_id = id_user usr, view_email = email usr,
            view_first_name = first_name usr, view_last_name = last_name usr,
            view_profile_picture_url = profile_picture_url usr,
            view_auth_method = auth_method usr \<rparr>
      \<and> sessions st'
        = (sessions st)(session_key (uuidv4 env) \<mapsto> (id_user usr, session_expiry env)))"

text \<open>The header \<open>Authorization: Bearer <token>\<close>.\<close>

definition bearer :: "string \<Rightarrow> string option" where
  "bearer token = Some (''Bearer '' @ token)"

section \<open>Example data\<close>

text \<open>An environment to run the definitions in.\<close>

definition example_env :: env where
  "example_env =
     \<lparr> hashPassword = (\<lambda>p. ''hash:'' @ p),
       comparePassword = (\<lambda>p h. h = ''hash:'' @ p),
       jwt_sign = (\<lambda>p. ''jwt.'' @ tokenId p),
       jwt_verify = (\<lambda>t. if take 4 t = ''jwt.''
                          then Some \<lparr>userId = ''u1'', token_email = ''a@b.com'',
                                      tokenId = drop 4 t\<rparr>
                          else None),
       session_expiry = 86400,
       uuidv4 = ''t1'',
       gen_random_uuid = ''u1'',
       current_timestamp = 1000 \<rparr>"

text \<open>Two active users, one registered by email and one by the identity provider only,
  and a deactivated one.\<close>

definition email_user :: User where
  "email_user =
     \<lparr> id_user = ''u1'', email = ''a@b.com'', password_hash = Some ''hash:secret123'',
       first_name = Some ''A'', last_name = None, google_id = None,
       auth_method = ''email'', profile_picture_url = None,
       created_at = 1, updated_at = 1, is_active = True \<rparr>"

definition google_user :: User where
  "google_user =
     \<lparr> id_user = ''u2'', email = ''g@b.com'', password_hash = None,
       first_name = Some ''G'', last_name = None, google_id = Some ''g-1'',
       auth_method = ''google'', profile_picture_url = None,
       created_at = 5, updated_at = 5, is_active = True \<rparr>"

definition former_user :: User where
  "former_user =
     \<lparr> id_user = ''u3'', email = ''old@b.com'', password_hash = Some ''hash:secret123'',
       first_name = None, last_name = None, google_id = Some ''g-3'',
       auth_method = ''email'', profile_picture_url = None,
       created_at = 2, updated_at = 9, is_active = False \<rparr>"

definition example_state :: state where
  "example_state = \<lparr> users = [email_user, google_user], sessions = Map.empty \<rparr>"

text \<open>An environment whose next identifiers are not yet in use in \<open>example_state\<close>.\<close>

definition second_env :: env where
  "second_env = example_env \<lparr> uuidv4 := ''t2'', gen_random_uuid := ''u4'' \<rparr>"

text \<open>Profiles as the identity provider hands them over.\<close>

definition link_profile :: Profile where
  "link_profile = \<lparr> profile_id = ''g-9'', displayName = Some ''A B'',
                     emails = Some [''A@b.com''], photos = None \<rparr>"

definition known_profile :: Profile where
  "known_profile = \<lparr> profile_id = ''g-1'', displayName = None,
                      emails = Some [''other@b.com''], photos = None \<rparr>"

definition new_profile :: Profile where
  "new_profile = \<lparr> profile_id = ''g-7'', displayName = Some ''New User'',
                    emails = Some [''new@b.com''], photos = Some [''pic''] \<rparr>"

definition silent_profile :: Profile where
  "silent_profile = \<lparr> profile_id = ''g-8'', displayName = Some ''S'',
                       emails = Some [], photos = None \<rparr>"

text \<open>
  A table in which a deactivated record still holds a provider id, a profile that comes
  back with that id and the email of an active record, and a picture address longer than
  its column.
\<close>

definition lapsed_state :: state where
  "lapsed_state = \<lparr> users = [email_user, former_user], sessions = Map.empty \<rparr>"

definition returning_profile :: Profile where
  "returning_profile = \<lparr> profile_id = ''g-3'', displayName = Some ''A B'',
                          emails = Some [''a@b.com''], photos = None \<rparr>"

definition long_photo :: string where
  "long_photo = replicate 501 CHR ''x''"

section \<open>Session verification\<close>

lemma authMiddleware_bearer:
  "authMiddleware env r (bearer token) =
     (case verifyToken env token of
        None \<Rightarrow> Responded 401 ''Invalid token''
      | Some payload \<Rightarrow>
          if truthy (validateSession r (tokenId payload)) then Next payload
          else Responded 401 ''Session expired or invalid'')"
  by (simp add: authMiddleware_def bearer_def startsWith_def slice_def split: option.splits)

text \<open>
  The middleware tests the value it reads for truthiness: for a credential that
  verifies, it admits the request exactly when the entry exists and its value is not
  the empty string.
\<close>

lemma authMiddleware_admits_iff:
  assumes "verifyToken env token = Some payload"
  shows "admitted (authMiddleware env r (bearer token))
           \<longleftrightarrow> (\<exists>uid t. r (session_key (tokenId payload)) = Some (uid, t) \<and> uid \<noteq> [])"
  using assms
  by (auto simp: authMiddleware_bearer admitted_def truthy_def validateSession_def get_def
           split: option.splits)

lemma validateSession_after_invalidate:
  "validateSession (invalidateSession r tid) tid = None"
  by (simp add: validateSession_def get_def invalidateSession_def del_def)

lemma validateSession_after_expiry:
  "ttl_of r (session_key tid) = Some t \<Longrightarrow> t \<le> d \<Longrightarrow> validateSession (elapse d r) tid = None"
  by (auto simp: validateSession_def get_def elapse_def ttl_of_def split: option.splits)

text \<open>
  C1. For a request whose bearer credential verifies, the middleware admits the request
  exactly when the cache holds an entry under the session identifier of the credential
  (the entries holding user identifiers, which are not empty). With no entry the
  answer is 401; so it is after the entry has been deleted, as logout does, and after
  its time-to-live has run out. Logging out through the route and then asking for the
  profile with the same credential gives 401.
\<close>

theorem authMiddleware_session_presence:
  assumes "verifyToken env token = Some payload" and "session_values_ok (sessions st)"
  shows "(admitted (authMiddleware env (sessions st) (bearer token))
            \<longleftrightarrow> sessions st (session_key (tokenId payload)) \<noteq> None)
       \<and> (sessions st (session_key (tokenId payload)) \<noteq> None
            \<longrightarrow> authMiddleware env (sessions st) (bearer token) = Next payload)
       \<and> (sessions st (session_key (tokenId payload)) = None
            \<longrightarrow> authMiddleware env (sessions st) (bearer token)
                  = Responded 401 ''Session expired or invalid'')
       \<and> authMiddleware env (invalidateSession (sessions st) (tokenId payload)) (bearer token)
            = Responded 401 ''Session expired or invalid''
       \<and> (\<forall>t d. ttl_of (sessions st) (session_key (tokenId payload)) = Some t \<and> t \<le> d
            \<longrightarrow> authMiddleware env (elapse d (sessions st)) (bearer token)
                  = Responded 401 ''Session expired or invalid'')
       \<and> fst (route_me env (snd (route_logout env st (bearer token))) (bearer token)) = 401"
proof -
  let ?k = "session_key (tokenId payload)"
  let ?r = "sessions st"
  have present: "truthy (validateSession ?r (tokenId payload)) \<longleftrightarrow> ?r ?k \<noteq> None"
    using assms(2)
    by (auto simp: truthy_def validateSession_def get_def session_values_ok_def
             split: option.splits)
  have gone: "\<not> truthy (validateSession (invalidateSession ?r (tokenId payload)) (tokenId payload))"
    by (simp add: truthy_def validateSession_after_invalidate)
  have expired: "\<not> truthy (validateSession (elapse d ?r) (tokenId payload))"
    if "ttl_of ?r ?k = Some t" and "t \<le> d" for t d
    using that by (simp add: truthy_def validateSession_after_expiry)
  have routes: "fst (route_me env (snd (route_logout env st (bearer token))) (bearer token)) = 401"
    using assms(1) gone
    by (simp add: route_me_def route_logout_def authMiddleware_bearer AuthController_logout_def
          AuthService_logout_def)
  show ?thesis
    using assms(1) present gone expired routes
    by (auto simp: authMiddleware_bearer admitted_def)
qed

theorem authMiddleware_session_presence_witness:
  "verifyToken example_env ''jwt.t1''
     = Some \<lparr>userId = ''u1'', token_email = ''a@b.com'', tokenId = ''t1''\<rparr>
   \<and> session_values_ok (sessions \<lparr>users = [], sessions = [session_key ''t1'' \<mapsto> (''u1'', 60)]\<rparr>)
   \<and> authMiddleware example_env [session_key ''t1'' \<mapsto> (''u1'', 60)] (bearer ''jwt.t1'')
       = Next \<lparr>userId = ''u1'', token_email = ''a@b.com'', tokenId = ''t1''\<rparr>
   \<and> authMiddleware example_env
         (invalidateSession [session_key ''t1'' \<mapsto> (''u1'', 60)] ''t1'') (bearer ''jwt.t1'')
       = Responded 401 ''Session expired or invalid''
   \<and> authMiddleware example_env
         (elapse 60 [session_key ''t1'' \<mapsto> (''u1'', 60)]) (bearer ''jwt.t1'')
       = Responded 401 ''Session expired or invalid''"
proof -
  let ?st = "\<lparr>users = [], sessions = [session_key ''t1'' \<mapsto> (''u1'', 60)]\<rparr>"
  have v: "verifyToken example_env ''jwt.t1''
             = Some \<lparr>userId = ''u1'', token_email = ''a@b.com'', tokenId = ''t1''\<rparr>"
    by (simp add: verifyToken_def example_env_def)
  have ok: "session_values_ok (sessions ?st)"
    by (simp add: session_values_ok_def)
  have t: "ttl_of [session_key ''t1'' \<mapsto> (''u1'', 60)] (session_key ''t1'') = Some 60"
    by (simp add: ttl_of_def)
  show ?thesis
    using authMiddleware_session_presence [OF v ok] v ok t
    by simp
qed

section \<open>The session check of the service\<close>

text \<open>
  C3, as the code has it. \<open>AuthService.validateSession\<close> writes the entry: afterwards
  the entry under the session identifier holds the user identifier that was passed in,
  and since the call passes no time-to-live the default applies, so the entry's
  time-to-live is the configured session expiry, whatever it was before. The users
  table is untouched.
\<close>

theorem validateSession_resets_ttl:
  "get (sessions (snd (AuthService_validateSession env st tid uid))) (session_key tid) = Some uid
   \<and> ttl_of (sessions (snd (AuthService_validateSession env st tid uid))) (session_key tid)
       = Some (session_expiry env)
   \<and> users (snd (AuthService_validateSession env st tid uid)) = users st"
  by (simp add: AuthService_validateSession_def storeSession_def Let_def setEx_def get_def
        ttl_of_def)

text \<open>
  An entry with ten seconds left has the full session expiry of 86400 seconds after
  the check: the time-to-live is not left unchanged.
\<close>

theorem validateSession_ttl_counterexample:
  "ttl_of (sessions \<lparr>users = [], sessions = [session_key ''t1'' \<mapsto> (''u1'', 10)]\<rparr>)
       (session_key ''t1'') = Some 10
   \<and> ttl_of (sessions (snd (AuthService_validateSession example_env
                \<lparr>users = [], sessions = [session_key ''t1'' \<mapsto> (''u1'', 10)]\<rparr> ''t1'' ''u1'')))
       (session_key ''t1'') = Some 86400"
  by (simp add: AuthService_validateSession_def storeSession_def Let_def setEx_def ttl_of_def
        example_env_def)

text \<open>
  C4. \<open>AuthService.validateSession\<close> answers false for every session identifier and
  every user identifier: what \<open>storeSession\<close> resolves to is undefined, which is never
  equal to a string.
\<close>

theorem validateSession_never_valid:
  "\<not> fst (AuthService_validateSession env st tid uid)"
  by (simp add: AuthService_validateSession_def storeSession_def Let_def)

section \<open>Logout\<close>

text \<open>
  C9. Logout removes the entry of the session identifier whatever the cache holds,
  and leaves every other entry and the users table alone. Doing it twice gives the state that doing it once
  gives; where the entry is absent nothing changes and nothing fails. The controller
  answers 200 both times.
\<close>

theorem logout_idempotent:
  "AuthService_logout (AuthService_logout st tid) tid = AuthService_logout st tid
   \<and> sessions (AuthService_logout st tid) (session_key tid) = None
   \<and> users (AuthService_logout st tid) = users st
   \<and> (key \<noteq> session_key tid
        \<longrightarrow> sessions (AuthService_logout st tid) key = sessions st key)
   \<and> (sessions st (session_key tid) = None \<longrightarrow> AuthService_logout st tid = st)
   \<and> fst (fst (AuthController_logout st (Some p))) = 200
   \<and> fst (fst (AuthController_logout (snd (AuthController_logout st (Some p))) (Some p))) = 200
   \<and> snd (AuthController_logout (snd (AuthController_logout st (Some p))) (Some p))
       = snd (AuthController_logout st (Some p))"
  by (simp add: AuthService_logout_def invalidateSession_def del_def AuthController_logout_def
        fun_upd_idem)

theorem logout_idempotent_witness:
  "sessions \<lparr>users = [], sessions = Map.empty\<rparr> (session_key ''t1'') = None
   \<and> AuthService_logout \<lparr>users = [], sessions = Map.empty\<rparr> ''t1''
       = \<lparr>users = [], sessions = Map.empty\<rparr>
   \<and> ''session:t2'' \<noteq> session_key ''t1''
   \<and> sessions (AuthService_logout
         \<lparr>users = [], sessions = [session_key ''t1'' \<mapsto> (''u1'', 60), ''session:t2'' \<mapsto> (''u2'', 60)]\<rparr>
         ''t1'') ''session:t2''
       = Some (''u2'', 60)
   \<and> sessions (AuthService_logout
         \<lparr>users = [], sessions = [session_key ''t1'' \<mapsto> (''u1'', 60), ''session:t2'' \<mapsto> (''u2'', 60)]\<rparr>
         ''t1'') (session_key ''t1'')
       = None"
proof -
  have other: "''session:t2'' \<noteq> session_key ''t1''"
    by (simp add: session_key_def)
  show ?thesis
    using logout_idempotent [of "\<lparr>users = [], sessions = Map.empty\<rparr>" "''t1''"]
      logout_idempotent [of "\<lparr>users = [],
          sessions = [session_key ''t1'' \<mapsto> (''u1'', 60), ''session:t2'' \<mapsto> (''u2'', 60)]\<rparr>"
        "''t1''" "''session:t2''"] other
    by simp
qed

text \<open>
  Through the route a second \<open>POST /auth/logout\<close> with the same credential does not
  reach the controller: its session identifier is no longer verified, and the middleware
  answers 401.
\<close>

lemma route_logout_again:
  assumes "verifyToken env token = Some payload"
  shows "fst (fst (route_logout env (snd (route_logout env st (bearer token))) (bearer token))) = 401"
proof -
  have "\<not> truthy (validateSession (invalidateSession (sessions st) (tokenId payload))
                    (tokenId payload))"
    by (simp add: truthy_def validateSession_after_invalidate)
  then show ?thesis
    using assms
    by (simp add: route_logout_def authMiddleware_bearer AuthController_logout_def
          AuthService_logout_def)
qed

section \<open>Login\<close>

lemma lower_examples:
  "toLowerCase ''a@b.com'' = ''a@b.com''" "toLowerCase ''g@b.com'' = ''g@b.com''"
  "toLowerCase ''nobody@b.com'' = ''nobody@b.com''"
  by (simp_all add: toLowerCase_def lower_char_def)

text \<open>
  C2, as the code has it. A login with a non-empty email and secret fails with the
  message \<open>Invalid email or password\<close> when the email is unknown and when the secret does
  not match the stored hash, and with the different message \<open>This account uses a
  different authentication method\<close> when the record has no password hash. The controller
  returns each with status 401 and leaves the stores as they were.
\<close>

theorem login_failure_messages:
  assumes "mail \<noteq> []" and "password \<noteq> []"
  shows "(UserModel_findByEmail (users st) mail = None
            \<longrightarrow> AuthController_login env st (Some mail) (Some password)
                  = ((401, FailureBody ''Invalid email or password''), st))
       \<and> (\<forall>usr h. UserModel_findByEmail (users st) mail = Some usr \<and> password_hash usr = Some h
                    \<and> h \<noteq> [] \<and> \<not> comparePassword env password h
            \<longrightarrow> AuthController_login env st (Some mail) (Some password)
                  = ((401, FailureBody ''Invalid email or password''), st))
       \<and> (\<forall>usr. UserModel_findByEmail (users st) mail = Some usr \<and> \<not> truthy (password_hash usr)
            \<longrightarrow> AuthController_login env st (Some mail) (Some password)
                  = ((401, FailureBody ''This account uses a different authentication method''), st))"
  using assms
  by (auto simp: AuthController_login_def AuthService_login_def message_or_def message_def truthy_def
           split: option.splits)

theorem login_failure_messages_witness:
  "AuthController_login example_env example_state (Some ''nobody@b.com'') (Some ''secret123'')
     = ((401, FailureBody ''Invalid email or password''), example_state)
   \<and> AuthController_login example_env example_state (Some ''a@b.com'') (Some ''wrong-secret'')
     = ((401, FailureBody ''Invalid email or password''), example_state)
   \<and> AuthController_login example_env example_state (Some ''g@b.com'') (Some ''secret123'')
     = ((401, FailureBody ''This account uses a different authentication method''), example_state)"
proof -
  have unknown: "UserModel_findByEmail (users example_state) ''nobody@b.com'' = None"
    by (simp add: UserModel_findByEmail_def example_state_def lower_examples email_user_def
          google_user_def)
  have known: "UserModel_findByEmail (users example_state) ''a@b.com'' = Some email_user"
    by (simp add: UserModel_findByEmail_def example_state_def lower_examples email_user_def)
  have wrong: "password_hash email_user = Some ''hash:secret123''"
    "\<not> comparePassword example_env ''wrong-secret'' ''hash:secret123''"
    by (simp_all add: email_user_def example_env_def)
  have google: "UserModel_findByEmail (users example_state) ''g@b.com'' = Some google_user"
    "\<not> truthy (password_hash google_user)"
    by (simp_all add: UserModel_findByEmail_def example_state_def lower_examples email_user_def
          google_user_def truthy_def)
  show ?thesis
    using login_failure_messages [of "''nobody@b.com''" "''secret123''" example_state example_env]
      login_failure_messages [of "''a@b.com''" "''wrong-secret''" example_state example_env]
      login_failure_messages [of "''g@b.com''" "''secret123''" example_state example_env]
      unknown known wrong google
    by simp
qed

text \<open>
  The three failures do not carry one message: against the account that has no password
  hash the message differs from the one for an unknown email and for a wrong secret.
\<close>

theorem login_messages_counterexample:
  "AuthService_login example_env example_state (Some ''g@b.com'') (Some ''secret123'')
     = Inl (Error ''This account uses a different authentication method'')
   \<and> AuthService_login example_env example_state (Some ''nobody@b.com'') (Some ''secret123'')
     = Inl (Error ''Invalid email or password'')
   \<and> AuthService_login example_env example_state (Some ''a@b.com'') (Some ''wrong-secret'')
     = Inl (Error ''Invalid email or password'')"
  by (simp add: AuthService_login_def example_state_def UserModel_findByEmail_def lower_examples
        email_user_def google_user_def example_env_def)

text \<open>
  C6, as the code has it. \<open>POST /auth/login\<close> answers 200 with the access token and
  the user when the email is known and the secret matches, and 401 on every failure:
  on bad credentials, and also when the email or the password is missing from the
  request, which is answered with \<open>Email and password are required\<close> under 401.
\<close>

theorem login_statuses:
  "(\<forall>mail password usr h.
       email_arg = Some mail \<and> password_arg = Some password \<and> mail \<noteq> [] \<and> password \<noteq> []
       \<and> UserModel_findByEmail (users st) mail = Some usr \<and> password_hash usr = Some h
       \<and> h \<noteq> [] \<and> comparePassword env password h
       \<longrightarrow> AuthController_login env st email_arg password_arg
             = ((200, SuccessBody (Some ''Login successful'')
                        (Some (fst (issue_session env (sessions st) usr)))),
                st \<lparr> sessions := snd (issue_session env (sessions st) usr) \<rparr>))
   \<and> (\<forall>result st'. AuthService_login env st email_arg password_arg = Inr (result, st')
       \<longrightarrow> AuthController_login env st email_arg password_arg
             = ((200, SuccessBody (Some ''Login successful'') (Some result)), st'))
   \<and> (\<forall>e. AuthService_login env st email_arg password_arg = Inl e
       \<longrightarrow> fst (fst (AuthController_login env st email_arg password_arg)) = 401
           \<and> snd (AuthController_login env st email_arg password_arg) = st)
   \<and> (\<not> truthy email_arg \<or> \<not> truthy password_arg
       \<longrightarrow> AuthController_login env st email_arg password_arg
             = ((401, FailureBody ''Email and password are required''), st))"
  by (auto simp: AuthController_login_def AuthService_login_def message_or_def message_def
        truthy_def split: option.splits prod.splits)

theorem login_statuses_witness:
  "AuthController_login example_env example_state (Some ''a@b.com'') (Some ''secret123'')
     = ((200, SuccessBody (Some ''Login successful'')
                (Some \<lparr> accessToken = ''jwt.t1'',
                        user = \<lparr> view_id = ''u1'', view_email = ''a@b.com'',
                                 view_first_name = Some ''A'', view_last_name = None,
                                 view_profile_picture_url = None,
                                 view_auth_method = ''email'' \<rparr> \<rparr>)),
        example_state \<lparr> sessions := [session_key ''t1'' \<mapsto> (''u1'', 86400)] \<rparr>)
   \<and> AuthController_login example_env example_state None (Some ''secret123'')
     = ((401, FailureBody ''Email and password are required''), example_state)"
proof -
  have known: "UserModel_findByEmail (users example_state) ''a@b.com'' = Some email_user"
    by (simp add: UserModel_findByEmail_def example_state_def lower_examples email_user_def)
  have right: "password_hash email_user = Some ''hash:secret123''"
    "comparePassword example_env ''secret123'' ''hash:secret123''"
    by (simp_all add: email_user_def example_env_def)
  have issued: "issue_session example_env (sessions example_state) email_user
      = (\<lparr> accessToken = ''jwt.t1'',
            user = \<lparr> view_id = ''u1'', view_email = ''a@b.com'',
                     view_first_name = Some ''A'', view_last_name = None,
                     view_profile_picture_url = None,
                     view_auth_method = ''email'' \<rparr> \<rparr>,
         [session_key ''t1'' \<mapsto> (''u1'', 86400)])"
    by (simp add: issue_session_def example_env_def generateToken_def storeSession_def setEx_def
          email_user_def example_state_def Let_def)
  show ?thesis
    using login_statuses [of "Some ''a@b.com''" "Some ''secret123''" example_state example_env]
      login_statuses [of None "Some ''secret123''" example_state example_env]
      known right issued
    by (simp add: truthy_def)
qed

text \<open>
  A request without the email field, and one without the password field, get 401 and
  not 400.
\<close>

theorem login_missing_field_counterexample:
  "AuthController_login example_env example_state None (Some ''secret123'')
     = ((401, FailureBody ''Email and password are required''), example_state)
   \<and> AuthController_login example_env example_state (Some ''a@b.com'') None
     = ((401, FailureBody ''Email and password are required''), example_state)"
  by (simp add: AuthController_login_def AuthService_login_def message_or_def message_def)

section \<open>Lookups see active records only\<close>

lemma findByEmail_Some:
  "UserModel_findByEmail rows mail = Some usr
     \<Longrightarrow> is_active usr \<and> usr \<in> set rows \<and> email usr = toLowerCase mail"
  by (auto simp: UserModel_findByEmail_def find_Some_iff)

lemma findById_Some:
  "UserModel_findById rows uid = Some usr
     \<Longrightarrow> is_active usr \<and> usr \<in> set rows \<and> id_user usr = uid"
  by (auto simp: UserModel_findById_def find_Some_iff)

lemma findByGoogleId_Some:
  "UserModel_findByGoogleId rows gid = Some usr
     \<Longrightarrow> is_active usr \<and> usr \<in> set rows \<and> google_id usr = Some gid"
  by (auto simp: UserModel_findByGoogleId_def find_Some_iff)

lemma findByEmail_None:
  "UserModel_findByEmail rows mail = None
     \<longleftrightarrow> (\<forall>r \<in> set rows. email r = toLowerCase mail \<longrightarrow> \<not> is_active r)"
  by (auto simp: UserModel_findByEmail_def find_None_iff)

lemma findById_None:
  "UserModel_findById rows uid = None
     \<longleftrightarrow> (\<forall>r \<in> set rows. id_user r = uid \<longrightarrow> \<not> is_active r)"
  by (auto simp: UserModel_findById_def find_None_iff)

lemma findByGoogleId_None:
  "UserModel_findByGoogleId rows gid = None
     \<longleftrightarrow> (\<forall>r \<in> set rows. google_id r = Some gid \<longrightarrow> \<not> is_active r)"
  by (auto simp: UserModel_findByGoogleId_def find_None_iff)

text \<open>
  C10. \<open>findByEmail\<close>, \<open>findById\<close> and \<open>findByGoogleId\<close> return active records only,
  and return null where every record with the key is deactivated. So a login for a
  deactivated user fails as a login with an unknown email does, and the profile of a
  deactivated user is answered with 404.
\<close>

theorem lookups_only_active:
  "(\<forall>usr. UserModel_findByEmail rows mail = Some usr
       \<longrightarrow> is_active usr \<and> usr \<in> set rows \<and> email usr = toLowerCase mail)
   \<and> (\<forall>usr. UserModel_findById rows uid = Some usr
       \<longrightarrow> is_active usr \<and> usr \<in> set rows \<and> id_user usr = uid)
   \<and> (\<forall>usr. UserModel_findByGoogleId rows gid = Some usr
       \<longrightarrow> is_active usr \<and> usr \<in> set rows \<and> google_id usr = Some gid)
   \<and> ((\<forall>r \<in> set rows. email r = toLowerCase mail \<longrightarrow> \<not> is_active r)
       \<longrightarrow> UserModel_findByEmail rows mail = None)
   \<and> ((\<forall>r \<in> set rows. id_user r = uid \<longrightarrow> \<not> is_active r)
       \<longrightarrow> UserModel_findById rows uid = None)
   \<and> ((\<forall>r \<in> set rows. google_id r = Some gid \<longrightarrow> \<not> is_active r)
       \<longrightarrow> UserModel_findByGoogleId rows gid = None)
   \<and> ((\<forall>r \<in> set rows. email r = toLowerCase mail \<longrightarrow> \<not> is_active r) \<and> mail \<noteq> [] \<and> password \<noteq> []
       \<longrightarrow> AuthService_login env \<lparr>users = rows, sessions = r\<rparr> (Some mail) (Some password)
             = Inl (Error ''Invalid email or password'')
           \<and> AuthService_login env \<lparr>users = [], sessions = r\<rparr> (Some mail) (Some password)
             = Inl (Error ''Invalid email or password''))
   \<and> ((\<forall>r \<in> set rows. id_user r = userId payload \<longrightarrow> \<not> is_active r)
       \<longrightarrow> AuthController_me \<lparr>users = rows, sessions = r\<rparr> (Some payload)
             = (404, ErrorBody ''User not found''))"
proof -
  have login: "AuthService_login env \<lparr>users = rows, sessions = r\<rparr> (Some mail) (Some password)
                 = Inl (Error ''Invalid email or password'')
               \<and> AuthService_login env \<lparr>users = [], sessions = r\<rparr> (Some mail) (Some password)
                 = Inl (Error ''Invalid email or password'')"
    if "\<forall>r \<in> set rows. email r = toLowerCase mail \<longrightarrow> \<not> is_active r"
      and "mail \<noteq> []" and "password \<noteq> []"
  proof -
    have "UserModel_findByEmail rows mail = None"
      using that(1) by (simp add: findByEmail_None)
    moreover have "UserModel_findByEmail [] mail = None"
      by (simp add: UserModel_findByEmail_def)
    ultimately show ?thesis
      using that(2,3) by (simp add: AuthService_login_def)
  qed
  have me: "AuthController_me \<lparr>users = rows, sessions = r\<rparr> (Some payload)
              = (404, ErrorBody ''User not found'')"
    if "\<forall>r \<in> set rows. id_user r = userId payload \<longrightarrow> \<not> is_active r"
  proof -
    have "UserModel_findById rows (userId payload) = None"
      using that by (simp add: findById_None)
    then show ?thesis
      by (simp add: AuthController_me_def UserModel_getUserProfile_def)
  qed
  show ?thesis
    using findByEmail_Some [of rows mail] findById_Some [of rows uid]
      findByGoogleId_Some [of rows gid] login me
    by (simp add: findByEmail_None findById_None findByGoogleId_None)
qed

theorem lookups_only_active_witness:
  "UserModel_findByEmail [email_user, former_user] ''old@b.com'' = None
   \<and> UserModel_findById [email_user, former_user] ''u3'' = None
   \<and> UserModel_findByGoogleId [email_user, former_user] ''g-3'' = None
   \<and> AuthService_login example_env \<lparr>users = [email_user, former_user], sessions = Map.empty\<rparr>
         (Some ''old@b.com'') (Some ''secret123'')
       = Inl (Error ''Invalid email or password'')
   \<and> AuthController_me \<lparr>users = [email_user, former_user], sessions = Map.empty\<rparr>
         (Some \<lparr>userId = ''u3'', token_email = ''old@b.com'', tokenId = ''t9''\<rparr>)
       = (404, ErrorBody ''User not found'')"
proof -
  have low: "toLowerCase ''old@b.com'' = ''old@b.com''"
    by (simp add: toLowerCase_def lower_char_def)
  have by_email: "\<forall>r \<in> set [email_user, former_user].
                    email r = toLowerCase ''old@b.com'' \<longrightarrow> \<not> is_active r"
    by (simp add: low email_user_def former_user_def)
  have by_id: "\<forall>r \<in> set [email_user, former_user]. id_user r = ''u3'' \<longrightarrow> \<not> is_active r"
    by (simp add: email_user_def former_user_def)
  have by_google: "\<forall>r \<in> set [email_user, former_user].
                     google_id r = Some ''g-3'' \<longrightarrow> \<not> is_active r"
    by (simp add: email_user_def former_user_def)
  show ?thesis
    using lookups_only_active [where rows = "[email_user, former_user]"
        and mail = "''old@b.com''" and uid = "''u3''" and gid = "''g-3''"
        and password = "''secret123''" and env = example_env and r = Map.empty
        and payload = "\<lparr>userId = ''u3'', token_email = ''old@b.com'', tokenId = ''t9''\<rparr>"]
      by_email by_id by_google
    by simp
qed

section \<open>The constraints of the users table\<close>

lemma non_null_simps:
  "non_null [] = []"
  "non_null (None # xs) = non_null xs"
  "non_null (Some v # xs) = v # non_null xs"
  "non_null (xs @ ys) = non_null xs @ non_null ys"
  by (simp_all add: non_null_def)

lemma set_non_null: "set (non_null xs) = {v. Some v \<in> set xs}"
proof (induction xs)
  case Nil
  show ?case by (simp add: non_null_simps)
next
  case (Cons a xs)
  then show ?case by (cases a) (auto simp: non_null_simps)
qed

lemma violation_None_iff:
  "violation rows = None \<longleftrightarrow>
     distinct (map id_user rows) \<and> distinct (map email rows)
     \<and> distinct (non_null (map google_id rows))"
  by (simp add: violation_def)

lemma violation_append:
  assumes "violation rows = None"
  shows "violation (rows @ [row]) =
           (if id_user row \<in> id_user ` set rows then Some (UniqueViolation ''users_pkey'')
            else if email row \<in> email ` set rows then Some (UniqueViolation ''users_email_key'')
            else if google_id row \<noteq> None \<and> google_id row \<in> google_id ` set rows
                 then Some (UniqueViolation ''users_google_id_key'')
            else None)"
  using assms
  by (cases "google_id row")
     (auto simp: violation_def non_null_simps set_non_null)

lemma find_unique_id:
  "distinct (map id_user rows) \<Longrightarrow> usr \<in> set rows
     \<Longrightarrow> find (\<lambda>r. id_user r = id_user usr) rows = Some usr"
  by (induction rows) (auto simp: rev_image_eqI)

lemma find_unique_google:
  "distinct (non_null (map google_id rows)) \<Longrightarrow> usr \<in> set rows
     \<Longrightarrow> google_id usr = Some gid \<Longrightarrow> is_active usr
     \<Longrightarrow> find (\<lambda>r. google_id r = Some gid \<and> is_active r) rows = Some usr"
proof (induction rows)
  case Nil
  then show ?case by simp
next
  case (Cons r rows)
  show ?case
  proof (cases "r = usr")
    case True
    with Cons.prems show ?thesis by simp
  next
    case False
    with Cons.prems have in_rest: "usr \<in> set rows" by simp
    then have "gid \<in> set (non_null (map google_id rows))"
      using Cons.prems(3) by (force simp: set_non_null)
    with Cons.prems(1) have "google_id r \<noteq> Some gid"
      by (cases "google_id r") (auto simp: non_null_simps)
    moreover have "distinct (non_null (map google_id rows))"
      using Cons.prems(1) by (cases "google_id r") (auto simp: non_null_simps)
    ultimately show ?thesis
      using Cons.IH in_rest Cons.prems(3,4) by simp
  qed
qed

section \<open>The widths of the columns\<close>

lemma lower_char_space: "lower_char c = CHR '' '' \<Longrightarrow> c = CHR '' ''"
proof (rule ccontr)
  assume eq: "lower_char c = CHR '' ''" and ne: "c \<noteq> CHR '' ''"
  let ?n = "of_char c :: nat"
  from eq ne have range: "(65 \<le> ?n \<and> ?n \<le> 90) \<or> (192 \<le> ?n \<and> ?n \<le> 222 \<and> ?n \<noteq> 215)"
    and "char_of (?n + 32) = CHR '' ''"
    by (auto simp: lower_char_def Let_def split: if_splits)
  then have "(of_char (char_of (?n + 32) :: char) :: nat) = of_char CHR '' ''"
    by simp
  then have "(?n + 32) mod 256 = 32"
    by simp
  with range show False
    by auto
qed

lemma no_space_lower: "CHR '' '' \<notin> set s \<Longrightarrow> CHR '' '' \<notin> set (toLowerCase s)"
proof
  assume ns: "CHR '' '' \<notin> set s" and "CHR '' '' \<in> set (toLowerCase s)"
  then obtain c where "c \<in> set s" "lower_char c = CHR '' ''"
    by (auto simp: toLowerCase_def)
  with ns lower_char_space [of c] show False by auto
qed

lemma not_plain_space: "\<not> plain_char CHR '' ''"
  by (simp add: plain_char_def is_space_def)

lemma test_email_no_space: "test_email s \<Longrightarrow> CHR '' '' \<notin> set s"
proof
  assume t: "test_email s" and sp: "CHR '' '' \<in> set s"
  from t obtain d where rest: "dropWhile plain_char s = CHR ''@'' # d" and d: "list_all plain_char d"
    by (auto simp: test_email_def Let_def split: list.splits)
  have "s = takeWhile plain_char s @ CHR ''@'' # d"
    using rest by (metis takeWhile_dropWhile_id)
  then have "set s = set (takeWhile plain_char s) \<union> {CHR ''@''} \<union> set d"
    by (metis Un_insert_right list.simps(15) set_append sup_bot.right_neutral Un_assoc insert_is_Un)
  with sp have "CHR '' '' \<in> set (takeWhile plain_char s) \<or> CHR '' '' \<in> set d"
    by auto
  then show False
    using d not_plain_space by (auto simp: list_all_iff dest: set_takeWhileD)
qed

lemma too_long_no_space: "CHR '' '' \<notin> set v \<Longrightarrow> too_long n v \<longleftrightarrow> n < length v"
proof
  assume "too_long n v" then show "n < length v" by (simp add: too_long_def)
next
  assume ns: "CHR '' '' \<notin> set v" and "n < length v"
  then have "drop n v \<noteq> []" by simp
  then obtain x where "x \<in> set (drop n v)" by (cases "drop n v") auto
  moreover then have "x \<noteq> CHR '' ''" using ns by (auto dest: in_set_dropD)
  ultimately show "too_long n v"
    using \<open>n < length v\<close> by (auto simp: too_long_def list_all_iff)
qed

lemma not_too_long: "length v \<le> n \<Longrightarrow> \<not> too_long n v"
  by (simp add: too_long_def)

lemma fits_not_too_long: "fits n v \<Longrightarrow> \<not> too_long_opt n v"
  by (auto simp: fits_def too_long_opt_def not_too_long split: option.splits)

lemma fits_take: "fits n v \<Longrightarrow> map_option (take n) v = v"
  by (auto simp: fits_def split: option.splits)

lemma fits_js_or: "fits n a \<Longrightarrow> fits n b \<Longrightarrow> fits n (js_or a b)"
  by (simp add: js_or_def)

lemma fits_None: "fits n None"
  by (simp add: fits_def)

lemma width_error_fits:
  assumes "length mail \<le> 255" and "fits 255 hash" and "fits 100 fname" and "fits 100 lname"
    and "fits 255 gid" and "length method \<le> 50" and "fits 500 picture"
  shows "width_error mail hash fname lname gid method picture = None"
  using assms by (simp add: width_error_def not_too_long fits_not_too_long)

lemma width_error_mail:
  "width_error mail hash fname lname gid method picture = None \<Longrightarrow> \<not> too_long 255 mail"
  by (auto simp: width_error_def split: if_splits)

lemma width_error_gid:
  "width_error mail hash fname lname gid method picture = None \<Longrightarrow> \<not> too_long_opt 255 gid"
  by (auto simp: width_error_def split: if_splits)

section \<open>Registration\<close>

lemma issue_session_eq:
  "issue_session env r usr =
     (\<lparr> accessToken = generateToken env (id_user usr) (email usr) (uuidv4 env),
        user = \<lparr> view_id = id_user usr, view_email = email usr,
                 view_first_name = first_name usr, view_last_name = last_name usr,
                 view_profile_picture_url = profile_picture_url usr,
                 view_auth_method = auth_method usr \<rparr> \<rparr>,
      setEx r (session_key (uuidv4 env)) (session_expiry env) (id_user usr))"
  by (simp add: issue_session_def storeSession_def Let_def)

lemma test_email_nonempty: "test_email mail \<Longrightarrow> mail \<noteq> []"
  by (auto simp: test_email_def)

lemma register_checked:
  assumes "test_email mail" and "6 \<le> length password"
  shows "AuthService_register env st (Some mail) (Some password) firstName lastName =
           (case UserModel_findByEmail (users st) mail of
              Some existingUser \<Rightarrow> Inl (Error ''Email already registered'')
            | None \<Rightarrow>
                (case UserModel_create env (users st)
                        (register_data env mail password firstName lastName) of
                   Inl e \<Rightarrow> Inl e
                 | Inr (usr, rows') \<Rightarrow> succeed env st usr rows'))"
proof -
  have "mail \<noteq> []" using assms(1) by (rule test_email_nonempty)
  moreover have "password \<noteq> []" using assms(2) by auto
  moreover have "\<not> length password < 6" using assms(2) by simp
  ultimately show ?thesis
    using assms(1)
    by (simp add: AuthService_register_def Let_def register_data_def succeed_def
          split: option.splits sum.splits prod.splits)
qed

lemma js_or_None: "js_or None b = b"
  by (simp add: js_or_def truthy_def)

lemma new_row_id: "id_user (new_row env d) = gen_random_uuid env"
  by (simp add: new_row_def)

lemma create_cases:
  assumes "violation rows = None" and "gen_random_uuid env \<notin> id_user ` set rows"
  shows "UserModel_create env rows d =
           (case insert_error d of
              Some e \<Rightarrow> Inl e
            | None \<Rightarrow>
                if email (new_row env d) \<in> email ` set rows
                then Inl (UniqueViolation ''users_email_key'')
                else if google_id (new_row env d) \<noteq> None
                        \<and> google_id (new_row env d) \<in> google_id ` set rows
                then Inl (UniqueViolation ''users_google_id_key'')
                else Inr (new_row env d, rows @ [new_row env d]))"
  using assms
  by (simp add: UserModel_create_def violation_append new_row_id split: option.splits)

lemma registered_row_email:
  assumes "test_email mail"
    and "insert_error (register_data env mail password firstName lastName) = None"
  shows "email (registered_row env mail password firstName lastName) = toLowerCase mail"
proof -
  have "\<not> too_long 255 (toLowerCase mail)"
    using assms(2) by (auto simp: insert_error_def register_data_def dest: width_error_mail)
  moreover have "CHR '' '' \<notin> set (toLowerCase mail)"
    using assms(1) by (intro no_space_lower test_email_no_space)
  ultimately have "length (toLowerCase mail) \<le> 255"
    by (simp add: too_long_no_space)
  then show ?thesis
    by (simp add: registered_row_def new_row_def register_data_def)
qed

lemma registered_row_google: "google_id (registered_row env mail password firstName lastName) = None"
  by (simp add: registered_row_def new_row_def register_data_def js_or_None)

lemma register_data_fits:
  assumes "length mail \<le> 255" and "length (hashPassword env password) \<le> 255"
    and "fits 100 firstName" and "fits 100 lastName"
  shows "insert_error (register_data env mail password firstName lastName) = None"
proof -
  have "length (toLowerCase mail) \<le> 255"
    using assms(1) by (simp add: toLowerCase_def)
  moreover have "fits 255 (js_or (Some (hashPassword env password)) None)"
    using assms(2) by (intro fits_js_or) (simp_all add: fits_def)
  moreover have "fits 100 (js_or firstName None)" "fits 100 (js_or lastName None)"
    using assms(3,4) by (simp_all add: fits_js_or fits_None)
  ultimately show ?thesis
    unfolding insert_error_def register_data_def
    by (simp add: width_error_fits js_or_None fits_None)
qed








lemma register_success:
  assumes "violation (users st) = None"
    and "gen_random_uuid env \<notin> id_user ` set (users st)"
    and "test_email mail" and "6 \<le> length password"
    and "insert_error (register_data env mail password firstName lastName) = None"
    and "toLowerCase mail \<notin> email ` set (users st)"
  shows "AuthService_register env st (Some mail) (Some password) firstName lastName
           = succeed env st (registered_row env mail password firstName lastName)
               (users st @ [registered_row env mail password firstName lastName])"
proof -
  let ?d = "register_data env mail password firstName lastName"
  have "UserModel_findByEmail (users st) mail = None"
    using assms(6) by (auto simp: findByEmail_None image_iff)
  moreover have "email (new_row env ?d) = toLowerCase mail" "google_id (new_row env ?d) = None"
    using registered_row_email [OF assms(3,5)] registered_row_google [of env mail password firstName lastName]
    by (simp_all add: registered_row_def)
  ultimately show ?thesis
    using assms by (simp add: register_checked create_cases registered_row_def)
qed


lemma test_email_examples:
  "test_email ''new@b.com''" "test_email ''a@b.com''" "\<not> test_email ''not-an-email''"
  by (simp_all add: test_email_def plain_char_def is_space_def)

lemma example_state_ok:
  "violation (users example_state) = None"
  "gen_random_uuid second_env \<notin> id_user ` set (users example_state)"
  by (simp_all add: violation_def example_state_def email_user_def google_user_def
        non_null_def second_env_def example_env_def)




section \<open>External-identity login\<close>

lemma googleAuth_no_email:
  "\<not> truthy (first_value (emails profile))
     \<Longrightarrow> AuthService_googleAuth env st profile = Inl (Error ''Email not provided by Google'')"
  by (simp add: AuthService_googleAuth_def Let_def truthy_def split: option.splits)

lemma googleAuth_steps:
  assumes "first_value (emails profile) = Some mail" and "mail \<noteq> []"
  shows "AuthService_googleAuth env st profile =
           (case UserModel_findByGoogleId (users st) (profile_id profile) of
              Some usr \<Rightarrow> succeed env st usr (users st)
            | None \<Rightarrow>
                (case UserModel_findByEmail (users st) mail of
                   None \<Rightarrow>
                     (case UserModel_create env (users st) (google_data profile mail) of
                        Inl e \<Rightarrow> Inl e
                      | Inr (usr, rows') \<Rightarrow> succeed env st usr rows')
                 | Some usr \<Rightarrow>
                     (case UserModel_update env (users st) (id_user usr) (link_updates profile usr) of
                        Inl e \<Rightarrow> Inl e
                      | Inr (None, rows') \<Rightarrow> Inl (Error ''Failed to authenticate with Google'')
                      | Inr (Some usr', rows') \<Rightarrow> succeed env st usr' rows')))"
  using assms
  by (simp add: AuthService_googleAuth_def Let_def succeed_def display_name_def link_updates_def
           google_data_def split: option.splits sum.splits prod.splits)

lemma set_columns_link:
  "set_columns (link_updates profile usr) now r =
     r \<lparr> google_id := Some (take 255 (profile_id profile)), auth_method := ''google'',
         profile_picture_url :=
           map_option (take 500) (js_or (first_value (photos profile)) (profile_picture_url usr)),
         updated_at := now \<rparr>"
  by (simp add: set_columns_def link_updates_def)

lemma create_google:
  "UserModel_create env rows (google_data profile mail) =
   (case insert_error (google_data profile mail) of
      Some e \<Rightarrow> Inl e
    | None \<Rightarrow>
        (case violation (rows @ [created_row env profile mail]) of
           Some e \<Rightarrow> Inl e
         | None \<Rightarrow> Inr (created_row env profile mail, rows @ [created_row env profile mail])))"
  by (simp only: UserModel_create_def created_row_def)

lemma update_link:
  "UserModel_update env rows uid (link_updates profile usr) =
     (case update_error (link_updates profile usr) of
        Some e \<Rightarrow> Inl e
      | None \<Rightarrow>
          (case violation (map (\<lambda>r. if id_user r = uid
                                      then set_columns (link_updates profile usr)
                                             (current_timestamp env) r
                                      else r) rows) of
             Some e \<Rightarrow> Inl e
           | None \<Rightarrow>
               Inr (find (\<lambda>r. id_user r = uid)
                      (map (\<lambda>r. if id_user r = uid
                                 then set_columns (link_updates profile usr)
                                        (current_timestamp env) r
                                 else r) rows),
                    map (\<lambda>r. if id_user r = uid
                              then set_columns (link_updates profile usr) (current_timestamp env) r
                              else r) rows)))"
proof -
  have "\<not> no_keys (link_updates profile usr)"
    by (simp add: no_keys_def link_updates_def)
  then show ?thesis
    by (simp add: UserModel_update_def Let_def split: option.splits)
qed

lemma linked_ids:
  "map id_user (map (\<lambda>r. if id_user r = uid then set_columns (link_updates profile usr) now r else r) rows)
     = map id_user rows"
  by (induction rows) (simp_all add: set_columns_link)

lemma linked_emails:
  "map email (map (\<lambda>r. if id_user r = uid then set_columns (link_updates profile usr) now r else r) rows)
     = map email rows"
  by (induction rows) (simp_all add: set_columns_link)

lemma linked_google_ids:
  assumes "distinct (map id_user rows)"
    and "distinct (non_null (map google_id rows))"
    and "Some gid \<notin> google_id ` set rows"
    and "\<And>r. google_id (f r) = Some gid"
  shows "distinct (non_null (map google_id (map (\<lambda>r. if id_user r = uid then f r else r) rows)))"
  using assms(1-3)
proof (induction rows)
  case Nil
  show ?case by (simp add: non_null_simps)
next
  case (Cons r rows)
  let ?F = "\<lambda>r. if id_user r = uid then f r else r"
  have rest: "distinct (non_null (map google_id rows))"
    using Cons.prems(2) by (cases "google_id r") (simp_all add: non_null_simps)
  have ih: "distinct (non_null (map google_id (map ?F rows)))"
    using Cons.IH Cons.prems rest by simp
  have absent: "gid \<notin> set (non_null (map google_id rows))"
    using Cons.prems(3) by (auto simp: set_non_null)
  have bound: "set (non_null (map google_id (map ?F rows)))
                 \<subseteq> insert gid (set (non_null (map google_id rows)))"
    using assms(4) by (auto simp: set_non_null image_iff split: if_splits)
  show ?case
  proof (cases "id_user r = uid")
    case True
    then have "uid \<notin> id_user ` set rows"
      using Cons.prems(1) by auto
    then have "map ?F rows = rows"
      by (intro map_idI) auto
    then show ?thesis
      using True assms(4) rest absent by (simp add: non_null_simps)
  next
    case False
    show ?thesis
    proof (cases "google_id r")
      case None
      with False ih show ?thesis by (simp add: non_null_simps)
    next
      case (Some v)
      then have "v \<noteq> gid" using Cons.prems(3) by auto
      moreover have "v \<notin> set (non_null (map google_id rows))"
        using Cons.prems(2) Some by (simp add: non_null_simps)
      ultimately have "v \<notin> set (non_null (map google_id (map ?F rows)))"
        using bound by auto
      with False Some ih show ?thesis by (simp add: non_null_simps)
    qed
  qed
qed

lemma linked_row_google:
  "length (profile_id profile) \<le> 255
     \<Longrightarrow> google_id (linked_row env profile usr) = Some (profile_id profile)"
  by (simp add: linked_row_def set_columns_link)

lemma linked_row_id: "id_user (linked_row env profile usr) = id_user usr"
  by (simp add: linked_row_def set_columns_link)

lemma update_link_ok:
  assumes "violation rows = None" and "usr \<in> set rows"
    and "Some (profile_id profile) \<notin> google_id ` set rows"
    and "update_error (link_updates profile usr) = None"
    and "length (profile_id profile) \<le> 255"
  shows "UserModel_update env rows (id_user usr) (link_updates profile usr) =
           Inr (Some (linked_row env profile usr),
                map (\<lambda>r. if id_user r = id_user usr then linked_row env profile usr else r) rows)"
proof -
  let ?now = "current_timestamp env"
  let ?F = "\<lambda>r. if id_user r = id_user usr
                 then set_columns (link_updates profile usr) ?now r else r"
  let ?G = "\<lambda>r. if id_user r = id_user usr then linked_row env profile usr else r"
  have ids: "distinct (map id_user rows)" and mails: "distinct (map email rows)"
    and gids: "distinct (non_null (map google_id rows))"
    using assms(1) by (simp_all add: violation_None_iff)
  have same: "r = usr" if "r \<in> set rows" and "id_user r = id_user usr" for r
    using ids that assms(2) by (meson distinct_map inj_onD)
  have FG: "map ?F rows = map ?G rows"
    by (rule map_cong) (auto simp: linked_row_def dest: same)
  have "distinct (non_null (map google_id (map ?F rows)))"
    by (rule linked_google_ids [OF ids gids assms(3)]) (simp add: set_columns_link assms(5))
  then have ok: "violation (map ?F rows) = None"
    using ids mails by (simp only: violation_None_iff linked_ids linked_emails)
  have "?F usr \<in> set (map ?F rows)"
    using assms(2) by (intro imageI [of usr "set rows" ?F, folded set_map])
  moreover have "distinct (map id_user (map ?F rows))"
    using ids by (simp only: linked_ids)
  moreover have "id_user (?F usr) = id_user usr"
    by (simp add: set_columns_link)
  ultimately have "find (\<lambda>r. id_user r = id_user usr) (map ?F rows) = Some (?F usr)"
    using find_unique_id [of "map ?F rows" "?F usr"] by simp
  moreover have "?F usr = linked_row env profile usr"
    by (simp add: linked_row_def)
  ultimately have found: "find (\<lambda>r. id_user r = id_user usr) (map ?F rows)
                            = Some (linked_row env profile usr)"
    by (simp only:)
  have "UserModel_update env rows (id_user usr) (link_updates profile usr)
          = Inr (find (\<lambda>r. id_user r = id_user usr) (map ?F rows), map ?F rows)"
    by (simp only: update_link assms(4) ok option.case)
  then have "UserModel_update env rows (id_user usr) (link_updates profile usr)
          = Inr (Some (linked_row env profile usr), map ?F rows)"
    by (simp only: found)
  then show ?thesis
    by (simp only: FG)
qed

lemma distinct_non_null_inj:
  "distinct (non_null (map f xs)) \<Longrightarrow> x \<in> set xs \<Longrightarrow> y \<in> set xs
     \<Longrightarrow> f x = Some v \<Longrightarrow> f y = Some v \<Longrightarrow> x = y"
proof (induction xs)
  case Nil
  then show ?case by simp
next
  case (Cons a xs)
  show ?case
  proof (cases "f a")
    case None
    with Cons show ?thesis by (auto simp: non_null_simps)
  next
    case (Some w)
    with Cons.prems(1) have fresh: "w \<notin> set (non_null (map f xs))"
      and rest: "distinct (non_null (map f xs))"
      by (simp_all add: non_null_simps)
    have held: "z \<in> set xs \<Longrightarrow> f z = Some v \<Longrightarrow> v \<in> set (non_null (map f xs))" for z
      by (force simp: set_non_null)
    show ?thesis
      using Cons.IH [OF rest] Cons.prems(2-5) Some fresh held by auto
  qed
qed

lemma update_link_conflict:
  assumes "violation rows = None" and "usr \<in> set rows"
    and "holder \<in> set rows" and "google_id holder = Some (profile_id profile)"
    and "holder \<noteq> usr"
    and "update_error (link_updates profile usr) = None"
    and "length (profile_id profile) \<le> 255"
  shows "UserModel_update env rows (id_user usr) (link_updates profile usr)
           = Inl (UniqueViolation ''users_google_id_key'')"
proof -
  let ?now = "current_timestamp env"
  let ?F = "\<lambda>r. if id_user r = id_user usr
                 then set_columns (link_updates profile usr) ?now r else r"
  have ids: "distinct (map id_user rows)" and mails: "distinct (map email rows)"
    using assms(1) by (simp_all add: violation_None_iff)
  have other: "id_user holder \<noteq> id_user usr"
    using ids assms(2,3,5) by (auto simp: distinct_map dest: inj_onD)
  then have keep: "?F holder = holder" by simp
  have "?F holder \<in> set (map ?F rows)"
    using assms(3) by (intro imageI [of holder "set rows" ?F, folded set_map])
  then have in1: "holder \<in> set (map ?F rows)"
    by (simp only: keep)
  have in2: "?F usr \<in> set (map ?F rows)"
    using assms(2) by (intro imageI [of usr "set rows" ?F, folded set_map])
  have g2: "google_id (?F usr) = Some (profile_id profile)"
    using assms(7) by (simp add: set_columns_link)
  have "?F usr \<noteq> holder"
    using other by (auto simp: set_columns_link)
  then have "\<not> distinct (non_null (map google_id (map ?F rows)))"
    using distinct_non_null_inj [OF _ in2 in1 g2 assms(4)] by blast
  then have "violation (map ?F rows) = Some (UniqueViolation ''users_google_id_key'')"
    unfolding violation_def linked_ids linked_emails
    using ids mails by simp
  then show ?thesis
    by (simp only: update_link assms(6) option.case)
qed

lemma find_SomeD: "find P xs = Some x \<Longrightarrow> x \<in> set xs \<and> P x"
  by (induction xs) (auto split: if_splits)

lemma succeed_Inr:
  "succeed env st usr rows' = Inr (resp, st') \<longleftrightarrow>
     resp = fst (issue_session env (sessions st) usr)
     \<and> st' = \<lparr> users = rows', sessions = snd (issue_session env (sessions st) usr) \<rparr>"
  by (auto simp: succeed_def)

lemma googleAuth_success:
  assumes "AuthService_googleAuth env st profile = Inr (resp, st')"
  shows "\<exists>usr. resp = fst (issue_session env (sessions st) usr)
             \<and> sessions st' = snd (issue_session env (sessions st) usr)
             \<and> usr \<in> set (users st')
             \<and> (profile_id profile \<noteq> [] \<and> length (profile_id profile) \<le> 255
                  \<longrightarrow> UserModel_findByGoogleId (users st') (profile_id profile) = Some usr)"
proof -
  let ?gid = "profile_id profile"
  let ?rows = "users st"
  have "truthy (first_value (emails profile))"
    using assms googleAuth_no_email [of profile env st] by auto
  then obtain mail where mail: "first_value (emails profile) = Some mail" "mail \<noteq> []"
    by (auto simp: truthy_def split: option.splits)
  note steps = googleAuth_steps [OF mail, of env st]
  show ?thesis
  proof (cases "UserModel_findByGoogleId ?rows ?gid")
    case (Some usr)
    then have "succeed env st usr ?rows = Inr (resp, st')"
      using assms steps by simp
    then show ?thesis
      using Some findByGoogleId_Some [OF Some] by (auto simp: succeed_Inr)
  next
    case None
    show ?thesis
    proof (cases "UserModel_findByEmail ?rows mail")
      case no_mail: None
      let ?row = "created_row env profile mail"
      have created: "(case insert_error (google_data profile mail) of
                        Some e \<Rightarrow> Inl e
                      | None \<Rightarrow>
                          (case violation (?rows @ [?row]) of
                             Some e \<Rightarrow> Inl e
                           | None \<Rightarrow> succeed env st ?row (?rows @ [?row]))) = Inr (resp, st')"
        using assms steps None no_mail by (simp add: create_google split: option.splits)
      then have ok: "violation (?rows @ [?row]) = None"
        by (simp split: option.splits)
      with created have fin: "succeed env st ?row (?rows @ [?row]) = Inr (resp, st')"
        by (simp split: option.splits)
      have "UserModel_findByGoogleId (?rows @ [?row]) ?gid = Some ?row"
        if "?gid \<noteq> []" and "length ?gid \<le> 255"
      proof -
        have "google_id ?row = Some ?gid"
          using that
          by (simp add: created_row_def new_row_def google_data_def js_or_def truthy_def)
        moreover have "is_active ?row" by (simp add: created_row_def new_row_def)
        moreover have "distinct (non_null (map google_id (?rows @ [?row])))"
          using ok by (simp only: violation_None_iff)
        ultimately show ?thesis
          unfolding UserModel_findByGoogleId_def
          by (intro find_unique_google) simp_all
      qed
      with fin show ?thesis
        by (auto simp: succeed_Inr)
    next
      case (Some usr)
      let ?F = "\<lambda>r. if id_user r = id_user usr
                     then set_columns (link_updates profile usr) (current_timestamp env) r else r"
      let ?rows' = "map ?F ?rows"
      have linked: "(case update_error (link_updates profile usr) of
                       Some e \<Rightarrow> Inl e
                     | None \<Rightarrow>
                         (case violation ?rows' of
                            Some e \<Rightarrow> Inl e
                          | None \<Rightarrow>
                              (case find (\<lambda>r. id_user r = id_user usr) ?rows' of
                                 None \<Rightarrow> Inl (Error ''Failed to authenticate with Google'')
                               | Some usr' \<Rightarrow> succeed env st usr' ?rows'))) = Inr (resp, st')"
        using assms steps None Some by (simp add: update_link split: option.splits)
      then have ok: "violation ?rows' = None"
        by (simp split: option.splits)
      with linked obtain usr' where
        found: "find (\<lambda>r. id_user r = id_user usr) ?rows' = Some usr'"
        and fin: "succeed env st usr' ?rows' = Inr (resp, st')"
        by (auto split: option.splits)
      have in_rows': "usr' \<in> set ?rows'"
        using find_SomeD [OF found] by (rule conjunct1)
      have id': "id_user usr' = id_user usr"
        using find_SomeD [OF found] by (rule conjunct2)
      from in_rows' obtain r where r: "r \<in> set ?rows" "usr' = ?F r"
        unfolding set_map by (elim imageE) simp
      have "id_user (?F r) = id_user r"
        by (simp add: set_columns_link)
      with r id' have same_id: "id_user r = id_user usr" by simp
      have "distinct (map id_user ?rows)"
        using ok by (simp only: violation_None_iff linked_ids)
      moreover have "usr \<in> set ?rows" "is_active usr"
        using findByEmail_Some [OF Some] by simp_all
      ultimately have "r = usr" "is_active r"
        using r(1) same_id by (auto simp: distinct_map dest: inj_onD)
      then have props: "google_id usr' = Some (take 255 ?gid)" "is_active usr'"
        using r(2) by (simp_all add: set_columns_link)
      have unique: "distinct (non_null (map google_id ?rows'))"
        using ok by (simp only: violation_None_iff)
      have "UserModel_findByGoogleId ?rows' ?gid = Some usr'" if "length ?gid \<le> 255"
        unfolding UserModel_findByGoogleId_def
        using unique in_rows' props that by (intro find_unique_google) simp_all
      with fin in_rows' show ?thesis
        by (auto simp: succeed_Inr)
    qed
  qed
qed

lemma succeed_issued:
  "succeed env st usr rows' = Inr (resp, st') \<Longrightarrow> issued_for env st usr resp st'"
  by (auto simp: succeed_Inr issued_for_def issue_session_eq generateToken_def setEx_def)

lemma googleAuth_found:
  assumes "first_value (emails profile) = Some mail" and "mail \<noteq> []"
    and "UserModel_findByGoogleId (users st) (profile_id profile) = Some usr"
  shows "AuthService_googleAuth env st profile = succeed env st usr (users st)"
  using assms(3) by (simp add: googleAuth_steps [OF assms(1,2)])

lemma googleAuth_linked:
  assumes "first_value (emails profile) = Some mail" and "mail \<noteq> []"
    and "violation (users st) = None"
    and "length (profile_id profile) \<le> 255"
    and "UserModel_findByEmail (users st) mail = Some usr"
    and "update_error (link_updates profile usr) = None"
    and "Some (profile_id profile) \<notin> google_id ` set (users st)"
  shows "AuthService_googleAuth env st profile
           = succeed env st (linked_row env profile usr)
               (map (\<lambda>r. if id_user r = id_user usr then linked_row env profile usr else r)
                  (users st))"
proof -
  have "UserModel_findByGoogleId (users st) (profile_id profile) = None"
    using assms(7) by (auto simp: findByGoogleId_None image_iff)
  moreover have "usr \<in> set (users st)"
    using findByEmail_Some [OF assms(5)] by simp
  ultimately show ?thesis
    using assms(5)
    by (simp add: googleAuth_steps [OF assms(1,2)]
          update_link_ok [OF assms(3) _ assms(7,6,4)])
qed

lemma googleAuth_link_conflict:
  assumes "first_value (emails profile) = Some mail" and "mail \<noteq> []"
    and "violation (users st) = None"
    and "length (profile_id profile) \<le> 255"
    and "UserModel_findByGoogleId (users st) (profile_id profile) = None"
    and "UserModel_findByEmail (users st) mail = Some usr"
    and "update_error (link_updates profile usr) = None"
    and "Some (profile_id profile) \<in> google_id ` set (users st)"
  shows "AuthService_googleAuth env st profile = Inl (UniqueViolation ''users_google_id_key'')"
proof -
  from assms(8) obtain holder where
    holder: "holder \<in> set (users st)" "google_id holder = Some (profile_id profile)"
    by (auto simp: image_iff)
  then have "\<not> is_active holder"
    using assms(5) by (auto simp: findByGoogleId_None)
  moreover have usr: "usr \<in> set (users st)" "is_active usr"
    using findByEmail_Some [OF assms(6)] by simp_all
  ultimately have "holder \<noteq> usr" by auto
  then have "UserModel_update env (users st) (id_user usr) (link_updates profile usr)
               = Inl (UniqueViolation ''users_google_id_key'')"
    by (intro update_link_conflict [OF assms(3) usr(1) holder _ assms(7,4)])
  then show ?thesis
    using assms(5,6) by (simp add: googleAuth_steps [OF assms(1,2)])
qed

lemma googleAuth_link_refused:
  assumes "first_value (emails profile) = Some mail" and "mail \<noteq> []"
    and "UserModel_findByGoogleId (users st) (profile_id profile) = None"
    and "UserModel_findByEmail (users st) mail = Some usr"
    and "update_error (link_updates profile usr) = Some e"
  shows "AuthService_googleAuth env st profile = Inl e"
  using assms(3-5) by (simp add: googleAuth_steps [OF assms(1,2)] update_link)

lemma created_row_columns:
  assumes "insert_error (google_data profile mail) = None"
  shows "length mail \<le> 255 \<Longrightarrow> email (created_row env profile mail) = toLowerCase mail"
    and "profile_id profile \<noteq> [] \<Longrightarrow> length (profile_id profile) \<le> 255
           \<Longrightarrow> google_id (created_row env profile mail) = Some (profile_id profile)"
    and "profile_id profile = [] \<Longrightarrow> google_id (created_row env profile mail) = None"
    and "id_user (created_row env profile mail) = gen_random_uuid env"
  by (simp_all add: created_row_def new_row_def google_data_def js_or_def truthy_def
        toLowerCase_def)

lemma googleAuth_created:
  assumes "first_value (emails profile) = Some mail" and "mail \<noteq> []"
    and "violation (users st) = None"
    and "profile_id profile \<noteq> []" and "length (profile_id profile) \<le> 255"
    and "insert_error (google_data profile mail) = None" and "length mail \<le> 255"
    and "Some (profile_id profile) \<notin> google_id ` set (users st)"
    and "toLowerCase mail \<notin> email ` set (users st)"
    and "gen_random_uuid env \<notin> id_user ` set (users st)"
  shows "AuthService_googleAuth env st profile
           = succeed env st (created_row env profile mail)
               (users st @ [created_row env profile mail])"
proof -
  note cols = created_row_columns [OF assms(6), of env]
  have "UserModel_findByGoogleId (users st) (profile_id profile) = None"
    using assms(8) by (auto simp: findByGoogleId_None image_iff)
  moreover have "UserModel_findByEmail (users st) mail = None"
    using assms(9) by (auto simp: findByEmail_None image_iff)
  moreover have "UserModel_create env (users st) (google_data profile mail)
                   = Inr (created_row env profile mail, users st @ [created_row env profile mail])"
    using assms(6,8,9) cols(1) [OF assms(7)] cols(2) [OF assms(4,5)]
    by (simp add: create_cases [OF assms(3,10)] created_row_def)
  ultimately show ?thesis
    by (simp add: googleAuth_steps [OF assms(1,2)])
qed

lemma googleAuth_create_refused:
  assumes "first_value (emails profile) = Some mail" and "mail \<noteq> []"
    and "UserModel_findByGoogleId (users st) (profile_id profile) = None"
    and "UserModel_findByEmail (users st) mail = None"
    and "insert_error (google_data profile mail) = Some e"
  shows "AuthService_googleAuth env st profile = Inl e"
  using assms(3-5) by (simp add: googleAuth_steps [OF assms(1,2)] UserModel_create_def)

lemma googleAuth_create_conflict:
  assumes "first_value (emails profile) = Some mail" and "mail \<noteq> []"
    and "violation (users st) = None"
    and "profile_id profile \<noteq> []" and "length (profile_id profile) \<le> 255"
    and "UserModel_findByGoogleId (users st) (profile_id profile) = None"
    and "UserModel_findByEmail (users st) mail = None"
    and "insert_error (google_data profile mail) = None" and "length mail \<le> 255"
    and "gen_random_uuid env \<notin> id_user ` set (users st)"
    and "toLowerCase mail \<in> email ` set (users st)
         \<or> Some (profile_id profile) \<in> google_id ` set (users st)"
  shows "\<exists>c \<in> {''users_email_key'', ''users_google_id_key''}.
           AuthService_googleAuth env st profile = Inl (UniqueViolation c)"
proof -
  note cols = created_row_columns [OF assms(8), of env]
  have "UserModel_create env (users st) (google_data profile mail)
          = Inl (UniqueViolation ''users_email_key'')
        \<or> UserModel_create env (users st) (google_data profile mail)
          = Inl (UniqueViolation ''users_google_id_key'')"
    using assms(8,11) cols(1) [OF assms(9)] cols(2) [OF assms(4,5)]
    by (auto simp: create_cases [OF assms(3,10)] created_row_def)
  then show ?thesis
    using assms(6,7) by (auto simp: googleAuth_steps [OF assms(1,2)])
qed

lemma lower_upper_example: "toLowerCase ''A@b.com'' = ''a@b.com''"
  by code_simp

lemma lower_other_examples:
  "toLowerCase ''other@b.com'' = ''other@b.com''" "toLowerCase ''new@b.com'' = ''new@b.com''"
  "toLowerCase ''a@b.com'' = ''a@b.com''" "toLowerCase ''old@b.com'' = ''old@b.com''"
  by (simp_all add: toLowerCase_def lower_char_def)

lemma lapsed_state_ok:
  "violation (users lapsed_state) = None"
  "gen_random_uuid second_env \<notin> id_user ` set (users lapsed_state)"
  by (simp_all add: violation_def lapsed_state_def email_user_def former_user_def
        non_null_def second_env_def example_env_def)

lemma long_photo_refused: "too_long 500 long_photo" "long_photo \<noteq> []"
  by (simp_all add: too_long_def long_photo_def)

lemma example_widths:
  "update_error (link_updates link_profile email_user) = None"
  "update_error (link_updates returning_profile email_user) = None"
  "update_error (link_updates (link_profile \<lparr> photos := Some [long_photo] \<rparr>) email_user)
     = Some (ValueTooLong ''character varying(500)'')"
  "insert_error (google_data new_profile ''new@b.com'') = None"
  "insert_error (google_data new_profile ''old@b.com'') = None"
  "insert_error (google_data (new_profile \<lparr> photos := Some [long_photo] \<rparr>) ''new@b.com'')
     = Some (ValueTooLong ''character varying(500)'')"
  using long_photo_refused
  by (simp_all add: update_error_def insert_error_def link_updates_def google_data_def
      width_error_def too_long_opt_def not_too_long link_profile_def returning_profile_def
      new_profile_def email_user_def js_or_def truthy_def first_value_def display_name_def
      element_def lower_other_examples)

text \<open>
  C7, as the code has it. On a users table that satisfies its constraints, for a profile
  with a non-empty provider id of at most 255 characters: without an email the login fails
  with \<open>Email not provided by Google\<close>. With an email, a record found by the provider id
  is the one logged in, the table unchanged. If that lookup finds none and the lookup by
  email finds a record, then: if the values fit their columns and no record at all,
  deactivated ones included, holds the provider id, the id is linked to that record in
  place (the table keeps its length and the record its id); if the values fit and a record
  holds the provider id, the login fails with the violation of \<open>users_google_id_key\<close> and
  nothing is linked; if a value is too long, the login fails with the refusal of the table.
  If both lookups find none, then: if the values fit and no record at all holds the
  provider id or the lower-cased email, a record with both is appended; if the values fit
  and a record holds one of them, the login fails with a uniqueness violation; if a value
  is too long, it fails with the refusal of the table. After any successful login, a
  further login with the same provider id, whatever its email, is resolved by the provider
  id to the same record and leaves the table unchanged.
\<close>

theorem googleAuth_resolution:
  assumes "violation (users st) = None"
    and "profile_id profile \<noteq> []" and "length (profile_id profile) \<le> 255"
  shows "(\<not> truthy (first_value (emails profile))
            \<longrightarrow> AuthService_googleAuth env st profile
                  = Inl (Error ''Email not provided by Google''))
       \<and> (\<forall>mail usr.
             first_value (emails profile) = Some mail \<and> mail \<noteq> []
             \<and> UserModel_findByGoogleId (users st) (profile_id profile) = Some usr
            \<longrightarrow> AuthService_googleAuth env st profile = succeed env st usr (users st))
       \<and> (\<forall>mail usr.
             first_value (emails profile) = Some mail \<and> mail \<noteq> []
             \<and> UserModel_findByGoogleId (users st) (profile_id profile) = None
             \<and> UserModel_findByEmail (users st) mail = Some usr
             \<and> update_error (link_updates profile usr) = None
             \<and> Some (profile_id profile) \<notin> google_id ` set (users st)
            \<longrightarrow> AuthService_googleAuth env st profile
                  = succeed env st (linked_row env profile usr)
                      (map (\<lambda>r. if id_user r = id_user usr then linked_row env profile usr else r)
                         (users st))
                \<and> id_user (linked_row env profile usr) = id_user usr
                \<and> google_id (linked_row env profile usr) = Some (profile_id profile))
       \<and> (\<forall>mail usr.
             first_value (emails profile) = Some mail \<and> mail \<noteq> []
             \<and> UserModel_findByGoogleId (users st) (profile_id profile) = None
             \<and> UserModel_findByEmail (users st) mail = Some usr
             \<and> update_error (link_updates profile usr) = None
             \<and> Some (profile_id profile) \<in> google_id ` set (users st)
            \<longrightarrow> AuthService_googleAuth env st profile
                  = Inl (UniqueViolation ''users_google_id_key''))
       \<and> (\<forall>mail usr e.
             first_value (emails profile) = Some mail \<and> mail \<noteq> []
             \<and> UserModel_findByGoogleId (users st) (profile_id profile) = None
             \<and> UserModel_findByEmail (users st) mail = Some usr
             \<and> update_error (link_updates profile usr) = Some e
            \<longrightarrow> AuthService_googleAuth env st profile = Inl e)
       \<and> (\<forall>mail.
             first_value (emails profile) = Some mail \<and> mail \<noteq> [] \<and> length mail \<le> 255
             \<and> insert_error (google_data profile mail) = None
             \<and> Some (profile_id profile) \<notin> google_id ` set (users st)
             \<and> toLowerCase mail \<notin> email ` set (users st)
             \<and> gen_random_uuid env \<notin> id_user ` set (users st)
            \<longrightarrow> AuthService_googleAuth env st profile
                  = succeed env st (created_row env profile mail)
                      (users st @ [created_row env profile mail])
                \<and> email (created_row env profile mail) = toLowerCase mail
                \<and> google_id (created_row env profile mail) = Some (profile_id profile))
       \<and> (\<forall>mail.
             first_value (emails profile) = Some mail \<and> mail \<noteq> [] \<and> length mail \<le> 255
             \<and> UserModel_findByGoogleId (users st) (profile_id profile) = None
             \<and> UserModel_findByEmail (users st) mail = None
             \<and> insert_error (google_data profile mail) = None
             \<and> gen_random_uuid env \<notin> id_user ` set (users st)
             \<and> (toLowerCase mail \<in> email ` set (users st)
                  \<or> Some (profile_id profile) \<in> google_id ` set (users st))
            \<longrightarrow> (\<exists>c \<in> {''users_email_key'', ''users_google_id_key''}.
                   AuthService_googleAuth env st profile = Inl (UniqueViolation c)))
       \<and> (\<forall>mail e.
             first_value (emails profile) = Some mail \<and> mail \<noteq> []
             \<and> UserModel_findByGoogleId (users st) (profile_id profile) = None
             \<and> UserModel_findByEmail (users st) mail = None
             \<and> insert_error (google_data profile mail) = Some e
            \<longrightarrow> AuthService_googleAuth env st profile = Inl e)
       \<and> (\<forall>resp st' env' profile'.
             AuthService_googleAuth env st profile = Inr (resp, st')
             \<and> profile_id profile' = profile_id profile
             \<and> truthy (first_value (emails profile'))
            \<longrightarrow> (\<exists>usr. UserModel_findByGoogleId (users st') (profile_id profile) = Some usr
                       \<and> view_id (user resp) = id_user usr
                       \<and> AuthService_googleAuth env' st' profile'
                           = succeed env' st' usr (users st')))"
proof (intro conjI allI impI)
  assume "\<not> truthy (first_value (emails profile))"
  then show "AuthService_googleAuth env st profile = Inl (Error ''Email not provided by Google'')"
    by (rule googleAuth_no_email)
next
  fix mail usr
  assume "first_value (emails profile) = Some mail \<and> mail \<noteq> []
            \<and> UserModel_findByGoogleId (users st) (profile_id profile) = Some usr"
  then show "AuthService_googleAuth env st profile = succeed env st usr (users st)"
    by (elim conjE) (rule googleAuth_found)
next
  fix mail usr
  assume h: "first_value (emails profile) = Some mail \<and> mail \<noteq> []
               \<and> UserModel_findByGoogleId (users st) (profile_id profile) = None
               \<and> UserModel_findByEmail (users st) mail = Some usr
               \<and> update_error (link_updates profile usr) = None
               \<and> Some (profile_id profile) \<notin> google_id ` set (users st)"
  then show "AuthService_googleAuth env st profile
               = succeed env st (linked_row env profile usr)
                   (map (\<lambda>r. if id_user r = id_user usr then linked_row env profile usr else r)
                      (users st))"
    by (elim conjE) (rule googleAuth_linked [OF _ _ assms(1,3)])
  show "id_user (linked_row env profile usr) = id_user usr"
    by (rule linked_row_id)
  show "google_id (linked_row env profile usr) = Some (profile_id profile)"
    using assms(3) by (rule linked_row_google)
next
  fix mail usr
  assume "first_value (emails profile) = Some mail \<and> mail \<noteq> []
            \<and> UserModel_findByGoogleId (users st) (profile_id profile) = None
            \<and> UserModel_findByEmail (users st) mail = Some usr
            \<and> update_error (link_updates profile usr) = None
            \<and> Some (profile_id profile) \<in> google_id ` set (users st)"
  then show "AuthService_googleAuth env st profile = Inl (UniqueViolation ''users_google_id_key'')"
    by (elim conjE) (rule googleAuth_link_conflict [OF _ _ assms(1,3)])
next
  fix mail usr e
  assume "first_value (emails profile) = Some mail \<and> mail \<noteq> []
            \<and> UserModel_findByGoogleId (users st) (profile_id profile) = None
            \<and> UserModel_findByEmail (users st) mail = Some usr
            \<and> update_error (link_updates profile usr) = Some e"
  then show "AuthService_googleAuth env st profile = Inl e"
    by (elim conjE) (rule googleAuth_link_refused)
next
  fix mail
  assume h: "first_value (emails profile) = Some mail \<and> mail \<noteq> [] \<and> length mail \<le> 255
               \<and> insert_error (google_data profile mail) = None
               \<and> Some (profile_id profile) \<notin> google_id ` set (users st)
               \<and> toLowerCase mail \<notin> email ` set (users st)
               \<and> gen_random_uuid env \<notin> id_user ` set (users st)"
  then show "AuthService_googleAuth env st profile
               = succeed env st (created_row env profile mail)
                   (users st @ [created_row env profile mail])"
    by (elim conjE) (rule googleAuth_created [OF _ _ assms])
  from h have fit: "insert_error (google_data profile mail) = None"
    by (elim conjE)
  from h have short: "length mail \<le> 255"
    by (elim conjE)
  show "email (created_row env profile mail) = toLowerCase mail"
    by (rule created_row_columns(1) [OF fit short])
  show "google_id (created_row env profile mail) = Some (profile_id profile)"
    by (rule created_row_columns(2) [OF fit assms(2,3)])
next
  fix mail
  assume "first_value (emails profile) = Some mail \<and> mail \<noteq> [] \<and> length mail \<le> 255
            \<and> UserModel_findByGoogleId (users st) (profile_id profile) = None
            \<and> UserModel_findByEmail (users st) mail = None
            \<and> insert_error (google_data profile mail) = None
            \<and> gen_random_uuid env \<notin> id_user ` set (users st)
            \<and> (toLowerCase mail \<in> email ` set (users st)
                 \<or> Some (profile_id profile) \<in> google_id ` set (users st))"
  then show "\<exists>c \<in> {''users_email_key'', ''users_google_id_key''}.
               AuthService_googleAuth env st profile = Inl (UniqueViolation c)"
    by (elim conjE) (rule googleAuth_create_conflict [OF _ _ assms])
next
  fix mail e
  assume "first_value (emails profile) = Some mail \<and> mail \<noteq> []
            \<and> UserModel_findByGoogleId (users st) (profile_id profile) = None
            \<and> UserModel_findByEmail (users st) mail = None
            \<and> insert_error (google_data profile mail) = Some e"
  then show "AuthService_googleAuth env st profile = Inl e"
    by (elim conjE) (rule googleAuth_create_refused)
next
  fix resp st' env' and profile' :: Profile
  assume h: "AuthService_googleAuth env st profile = Inr (resp, st')
               \<and> profile_id profile' = profile_id profile
               \<and> truthy (first_value (emails profile'))"
  then have first: "AuthService_googleAuth env st profile = Inr (resp, st')"
    by (elim conjE)
  from h have same: "profile_id profile' = profile_id profile"
    by (elim conjE)
  from h have mail': "truthy (first_value (emails profile'))"
    by (elim conjE)
  from googleAuth_success [OF first] assms(2,3) obtain usr where
    usr: "resp = fst (issue_session env (sessions st) usr)"
      "UserModel_findByGoogleId (users st') (profile_id profile) = Some usr"
    by auto
  from mail' obtain m where m: "first_value (emails profile') = Some m" "m \<noteq> []"
    by (auto simp: truthy_def split: option.splits)
  have "AuthService_googleAuth env' st' profile' = succeed env' st' usr (users st')"
    using usr(2) same by (intro googleAuth_found [OF m]) simp
  moreover have "view_id (user resp) = id_user usr"
    using usr(1) by (simp add: issue_session_eq)
  ultimately show "\<exists>usr. UserModel_findByGoogleId (users st') (profile_id profile) = Some usr
                       \<and> view_id (user resp) = id_user usr
                       \<and> AuthService_googleAuth env' st' profile'
                           = succeed env' st' usr (users st')"
    using usr(2) by blast
qed

theorem googleAuth_resolution_witness:
  "violation (users example_state) = None \<and> violation (users lapsed_state) = None
   \<and> AuthService_googleAuth second_env example_state silent_profile
       = Inl (Error ''Email not provided by Google'')
   \<and> AuthService_googleAuth second_env example_state known_profile
       = succeed second_env example_state google_user [email_user, google_user]
   \<and> AuthService_googleAuth second_env example_state link_profile
       = succeed second_env example_state (linked_row second_env link_profile email_user)
           [linked_row second_env link_profile email_user, google_user]
   \<and> id_user (linked_row second_env link_profile email_user) = ''u1''
   \<and> google_id (linked_row second_env link_profile email_user) = Some ''g-9''
   \<and> AuthService_googleAuth second_env lapsed_state returning_profile
       = Inl (UniqueViolation ''users_google_id_key'')
   \<and> AuthService_googleAuth second_env example_state
         (link_profile \<lparr> photos := Some [long_photo] \<rparr>)
       = Inl (ValueTooLong ''character varying(500)'')
   \<and> AuthService_googleAuth second_env example_state new_profile
       = succeed second_env example_state (created_row second_env new_profile ''new@b.com'')
           [email_user, google_user, created_row second_env new_profile ''new@b.com'']
   \<and> email (created_row second_env new_profile ''new@b.com'') = ''new@b.com''
   \<and> google_id (created_row second_env new_profile ''new@b.com'') = Some ''g-7''
   \<and> (\<exists>c \<in> {''users_email_key'', ''users_google_id_key''}.
         AuthService_googleAuth second_env lapsed_state
             (new_profile \<lparr> emails := Some [''old@b.com''] \<rparr>)
           = Inl (UniqueViolation c))
   \<and> AuthService_googleAuth second_env example_state
         (new_profile \<lparr> photos := Some [long_photo] \<rparr>)
       = Inl (ValueTooLong ''character varying(500)'')
   \<and> (\<exists>usr. UserModel_findByGoogleId
                [linked_row second_env link_profile email_user, google_user] ''g-9'' = Some usr
             \<and> id_user usr = ''u1''
             \<and> AuthService_googleAuth example_env
                   \<lparr> users = [linked_row second_env link_profile email_user, google_user],
                     sessions = snd (issue_session second_env (sessions example_state)
                                       (linked_row second_env link_profile email_user)) \<rparr>
                   link_profile
                 = succeed example_env
                     \<lparr> users = [linked_row second_env link_profile email_user, google_user],
                       sessions = snd (issue_session second_env (sessions example_state)
                                         (linked_row second_env link_profile email_user)) \<rparr>
                     usr [linked_row second_env link_profile email_user, google_user])"
proof -
  let ?linked = "linked_row second_env link_profile email_user"
  let ?st1 = "\<lparr> users = [?linked, google_user],
                sessions = snd (issue_session second_env (sessions example_state) ?linked) \<rparr>"
  let ?resp1 = "fst (issue_session second_env (sessions example_state) ?linked)"
  let ?photo_link = "link_profile \<lparr> photos := Some [long_photo] \<rparr>"
  let ?photo_new = "new_profile \<lparr> photos := Some [long_photo] \<rparr>"
  let ?old_new = "new_profile \<lparr> emails := Some [''old@b.com''] \<rparr>"
  have wf: "violation (users example_state) = None"
    by (rule example_state_ok(1))
  have wf': "violation (users lapsed_state) = None"
    by (rule lapsed_state_ok(1))
  have rows: "users example_state = [email_user, google_user]"
    by (simp add: example_state_def)
  have rows': "users lapsed_state = [email_user, former_user]"
    by (simp add: lapsed_state_def)
  have ids: "profile_id silent_profile \<noteq> []" "profile_id known_profile \<noteq> []"
    "profile_id link_profile \<noteq> []" "profile_id new_profile \<noteq> []"
    "profile_id returning_profile \<noteq> []" "profile_id ?photo_link \<noteq> []"
    "profile_id ?photo_new \<noteq> []" "profile_id ?old_new \<noteq> []"
    by (simp_all add: silent_profile_def known_profile_def link_profile_def new_profile_def
          returning_profile_def)
  have short: "length (profile_id silent_profile) \<le> 255" "length (profile_id known_profile) \<le> 255"
    "length (profile_id link_profile) \<le> 255" "length (profile_id new_profile) \<le> 255"
    "length (profile_id returning_profile) \<le> 255" "length (profile_id ?photo_link) \<le> 255"
    "length (profile_id ?photo_new) \<le> 255" "length (profile_id ?old_new) \<le> 255"
    by (simp_all add: silent_profile_def known_profile_def link_profile_def new_profile_def
          returning_profile_def)
  note silent = googleAuth_resolution [OF wf ids(1) short(1), of second_env,
      THEN conjunct1, rule_format]
  note known = googleAuth_resolution [OF wf ids(2) short(2), of second_env,
      THEN conjunct2, THEN conjunct1, rule_format]
  note link = googleAuth_resolution [OF wf ids(3) short(3), of second_env,
      THEN conjunct2, THEN conjunct2, THEN conjunct1, rule_format]
  note held = googleAuth_resolution [OF wf' ids(5) short(5), of second_env,
      THEN conjunct2, THEN conjunct2, THEN conjunct2, THEN conjunct1, rule_format]
  note wide = googleAuth_resolution [OF wf ids(6) short(6), of second_env,
      THEN conjunct2, THEN conjunct2, THEN conjunct2, THEN conjunct2, THEN conjunct1,
      rule_format]
  note new = googleAuth_resolution [OF wf ids(4) short(4), of second_env,
      THEN conjunct2, THEN conjunct2, THEN conjunct2, THEN conjunct2, THEN conjunct2,
      THEN conjunct1, rule_format]
  note taken = googleAuth_resolution [OF wf' ids(8) short(8), of second_env,
      THEN conjunct2, THEN conjunct2, THEN conjunct2, THEN conjunct2, THEN conjunct2,
      THEN conjunct2, THEN conjunct1, rule_format]
  note broad = googleAuth_resolution [OF wf ids(7) short(7), of second_env,
      THEN conjunct2, THEN conjunct2, THEN conjunct2, THEN conjunct2, THEN conjunct2,
      THEN conjunct2, THEN conjunct2, THEN conjunct1, rule_format]
  note again = googleAuth_resolution [OF wf ids(3) short(3), of second_env,
      THEN conjunct2, THEN conjunct2, THEN conjunct2, THEN conjunct2, THEN conjunct2,
      THEN conjunct2, THEN conjunct2, THEN conjunct2, rule_format]
  have a: "AuthService_googleAuth second_env example_state silent_profile
             = Inl (Error ''Email not provided by Google'')"
    by (rule silent) (simp add: silent_profile_def first_value_def truthy_def)
  have "first_value (emails known_profile) = Some ''other@b.com'' \<and> ''other@b.com'' \<noteq> []
          \<and> UserModel_findByGoogleId (users example_state) (profile_id known_profile)
              = Some google_user"
    by (simp add: known_profile_def first_value_def UserModel_findByGoogleId_def rows
          email_user_def google_user_def)
  from known [OF this]
  have b: "AuthService_googleAuth second_env example_state known_profile
             = succeed second_env example_state google_user [email_user, google_user]"
    by (simp only: rows)
  have link_hyp: "first_value (emails link_profile) = Some ''A@b.com'' \<and> ''A@b.com'' \<noteq> []
          \<and> UserModel_findByGoogleId (users example_state) (profile_id link_profile) = None
          \<and> UserModel_findByEmail (users example_state) ''A@b.com'' = Some email_user
          \<and> update_error (link_updates link_profile email_user) = None
          \<and> Some (profile_id link_profile) \<notin> google_id ` set (users example_state)"
    by (simp add: link_profile_def [symmetric] example_widths(1))
      (simp add: link_profile_def first_value_def UserModel_findByEmail_def
          UserModel_findByGoogleId_def rows lower_upper_example email_user_def google_user_def)
  from link [OF this, THEN conjunct1]
  have c: "AuthService_googleAuth second_env example_state link_profile
             = succeed second_env example_state ?linked [?linked, google_user]"
    by (simp add: rows email_user_def google_user_def)
  from link [OF link_hyp, THEN conjunct2, THEN conjunct1]
  have c1: "id_user ?linked = ''u1''"
    by (simp add: email_user_def)
  from link [OF link_hyp, THEN conjunct2, THEN conjunct2]
  have d: "google_id ?linked = Some ''g-9''"
    by (simp add: link_profile_def)
  have "first_value (emails returning_profile) = Some ''a@b.com'' \<and> ''a@b.com'' \<noteq> []
          \<and> UserModel_findByGoogleId (users lapsed_state) (profile_id returning_profile) = None
          \<and> UserModel_findByEmail (users lapsed_state) ''a@b.com'' = Some email_user
          \<and> update_error (link_updates returning_profile email_user) = None
          \<and> Some (profile_id returning_profile) \<in> google_id ` set (users lapsed_state)"
    by (simp add: example_widths(2))
      (simp add: returning_profile_def first_value_def UserModel_findByEmail_def
          UserModel_findByGoogleId_def rows' lower_other_examples email_user_def former_user_def)
  from held [OF this]
  have e: "AuthService_googleAuth second_env lapsed_state returning_profile
             = Inl (UniqueViolation ''users_google_id_key'')" .
  have "first_value (emails ?photo_link) = Some ''A@b.com'' \<and> ''A@b.com'' \<noteq> []
          \<and> UserModel_findByGoogleId (users example_state) (profile_id ?photo_link) = None
          \<and> UserModel_findByEmail (users example_state) ''A@b.com'' = Some email_user
          \<and> update_error (link_updates ?photo_link email_user)
              = Some (ValueTooLong ''character varying(500)'')"
    by (simp add: example_widths(3))
      (simp add: link_profile_def first_value_def UserModel_findByEmail_def
          UserModel_findByGoogleId_def rows lower_upper_example email_user_def google_user_def)
  from wide [OF this]
  have f: "AuthService_googleAuth second_env example_state ?photo_link
             = Inl (ValueTooLong ''character varying(500)'')" .
  have new_hyp: "first_value (emails new_profile) = Some ''new@b.com'' \<and> ''new@b.com'' \<noteq> []
          \<and> length ''new@b.com'' \<le> 255
          \<and> insert_error (google_data new_profile ''new@b.com'') = None
          \<and> Some (profile_id new_profile) \<notin> google_id ` set (users example_state)
          \<and> toLowerCase ''new@b.com'' \<notin> email ` set (users example_state)
          \<and> gen_random_uuid second_env \<notin> id_user ` set (users example_state)"
    using example_state_ok(2)
    by (simp add: example_widths(4))
      (simp add: new_profile_def first_value_def rows lower_other_examples email_user_def
          google_user_def)
  from new [OF this, THEN conjunct1]
  have g: "AuthService_googleAuth second_env example_state new_profile
             = succeed second_env example_state (created_row second_env new_profile ''new@b.com'')
                 [email_user, google_user, created_row second_env new_profile ''new@b.com'']"
    by (simp only: rows append.simps)
  from new [OF new_hyp, THEN conjunct2, THEN conjunct1]
  have g1: "email (created_row second_env new_profile ''new@b.com'') = ''new@b.com''"
    by (simp only: lower_other_examples)
  from new [OF new_hyp, THEN conjunct2, THEN conjunct2]
  have g2: "google_id (created_row second_env new_profile ''new@b.com'') = Some ''g-7''"
    by (simp add: new_profile_def)
  have same_data: "google_data ?old_new ''old@b.com'' = google_data new_profile ''old@b.com''"
    by (simp add: google_data_def display_name_def)
  have "first_value (emails ?old_new) = Some ''old@b.com'' \<and> ''old@b.com'' \<noteq> []
          \<and> length ''old@b.com'' \<le> 255
          \<and> UserModel_findByGoogleId (users lapsed_state) (profile_id ?old_new) = None
          \<and> UserModel_findByEmail (users lapsed_state) ''old@b.com'' = None
          \<and> insert_error (google_data ?old_new ''old@b.com'') = None
          \<and> gen_random_uuid second_env \<notin> id_user ` set (users lapsed_state)
          \<and> (toLowerCase ''old@b.com'' \<in> email ` set (users lapsed_state)
               \<or> Some (profile_id ?old_new) \<in> google_id ` set (users lapsed_state))"
    using lapsed_state_ok(2)
    by (simp add: same_data example_widths(5))
      (simp add: new_profile_def first_value_def UserModel_findByEmail_def
          UserModel_findByGoogleId_def rows' lower_other_examples email_user_def former_user_def)
  from taken [OF this]
  have h: "\<exists>c \<in> {''users_email_key'', ''users_google_id_key''}.
             AuthService_googleAuth second_env lapsed_state ?old_new = Inl (UniqueViolation c)" .
  have "first_value (emails ?photo_new) = Some ''new@b.com'' \<and> ''new@b.com'' \<noteq> []
          \<and> UserModel_findByGoogleId (users example_state) (profile_id ?photo_new) = None
          \<and> UserModel_findByEmail (users example_state) ''new@b.com'' = None
          \<and> insert_error (google_data ?photo_new ''new@b.com'')
              = Some (ValueTooLong ''character varying(500)'')"
    by (simp add: example_widths(6))
      (simp add: new_profile_def first_value_def UserModel_findByEmail_def
          UserModel_findByGoogleId_def rows lower_other_examples email_user_def google_user_def)
  from broad [OF this]
  have i: "AuthService_googleAuth second_env example_state ?photo_new
             = Inl (ValueTooLong ''character varying(500)'')" .
  have "AuthService_googleAuth second_env example_state link_profile = Inr (?resp1, ?st1)"
    by (simp only: c succeed_def)
  moreover have "truthy (first_value (emails link_profile))"
    by (simp add: link_profile_def first_value_def truthy_def)
  ultimately
  have "AuthService_googleAuth second_env example_state link_profile = Inr (?resp1, ?st1)
          \<and> profile_id link_profile = profile_id link_profile
          \<and> truthy (first_value (emails link_profile))"
    by (intro conjI refl)
  from again [OF this, of example_env] obtain usr where
    usr: "UserModel_findByGoogleId (users ?st1) (profile_id link_profile) = Some usr"
      "view_id (user ?resp1) = id_user usr"
      "AuthService_googleAuth example_env ?st1 link_profile
         = succeed example_env ?st1 usr (users ?st1)"
    by (elim exE conjE)
  have "id_user usr = ''u1''"
    using usr(2) c1 by (simp add: issue_session_eq)
  with usr(1,3) have j: "\<exists>usr. UserModel_findByGoogleId [?linked, google_user] ''g-9'' = Some usr
             \<and> id_user usr = ''u1''
             \<and> AuthService_googleAuth example_env ?st1 link_profile
                 = succeed example_env ?st1 usr [?linked, google_user]"
    by (intro exI [of _ usr]) (simp add: link_profile_def)
  show ?thesis
    using wf wf' a b c c1 d e f g g1 g2 h i j by (intro conjI)
qed

text \<open>
  The lookup by provider id finds no record and the lookup by email finds one, yet the
  provider id is not linked to it: a deactivated record holds the id, the lookup does not
  see it, and the table refuses the second holder.
\<close>

theorem googleAuth_deactivated_holder_counterexample:
  "violation (users lapsed_state) = None
   \<and> first_value (emails returning_profile) = Some ''a@b.com''
   \<and> UserModel_findByGoogleId (users lapsed_state) (profile_id returning_profile) = None
   \<and> UserModel_findByEmail (users lapsed_state) ''a@b.com'' = Some email_user
   \<and> AuthService_googleAuth second_env lapsed_state returning_profile
       = Inl (UniqueViolation ''users_google_id_key'')"
proof -
  have rows: "users lapsed_state = [email_user, former_user]"
    by (simp add: lapsed_state_def)
  have mail: "first_value (emails returning_profile) = Some ''a@b.com''"
    by (simp add: returning_profile_def first_value_def)
  have nonempty: "''a@b.com'' \<noteq> []"
    by simp
  have short: "length (profile_id returning_profile) \<le> 255"
    by (simp add: returning_profile_def)
  have by_id: "UserModel_findByGoogleId (users lapsed_state) (profile_id returning_profile) = None"
    by (simp add: UserModel_findByGoogleId_def rows returning_profile_def email_user_def
          former_user_def)
  have by_mail: "UserModel_findByEmail (users lapsed_state) ''a@b.com'' = Some email_user"
    by (simp add: UserModel_findByEmail_def rows lower_other_examples email_user_def)
  have held: "Some (profile_id returning_profile) \<in> google_id ` set (users lapsed_state)"
    by (simp add: rows returning_profile_def former_user_def)
  have "AuthService_googleAuth second_env lapsed_state returning_profile
          = Inl (UniqueViolation ''users_google_id_key'')"
    by (rule googleAuth_link_conflict [OF mail nonempty lapsed_state_ok(1) short by_id by_mail
          example_widths(2) held])
  with lapsed_state_ok(1) mail by_id by_mail show ?thesis
    by (intro conjI)
qed

section \<open>What every successful authentication does\<close>

lemma create_Inr:
  "UserModel_create env rows userData = Inr (usr, rows') \<Longrightarrow> rows' = rows @ [usr]"
  by (auto simp: UserModel_create_def split: option.splits)

lemma register_success_inv:
  assumes "AuthService_register env st email_arg password_arg firstName lastName = Inr (resp, st')"
  shows "\<exists>usr. usr \<in> set (users st') \<and> succeed env st usr (users st') = Inr (resp, st')"
proof -
  from assms obtain mail password where args: "email_arg = Some mail" "password_arg = Some password"
    by (cases email_arg; cases password_arg) (simp_all add: AuthService_register_def)
  have valid: "test_email mail" "6 \<le> length password"
    using assms unfolding args AuthService_register_def
    by (auto split: if_splits)
  note reg = assms [unfolded args register_checked [OF valid]]
  then obtain usr rows' where
    created: "UserModel_create env (users st)
                (register_data env mail password firstName lastName) = Inr (usr, rows')"
    and result: "succeed env st usr rows' = Inr (resp, st')"
    by (auto simp: succeed_def split: option.splits sum.splits)
  have "rows' = users st @ [usr]"
    using created by (rule create_Inr)
  moreover have "users st' = rows'"
    using result by (auto simp: succeed_Inr)
  ultimately show ?thesis
    using result by auto
qed

lemma login_success:
  assumes "mail \<noteq> []" and "password \<noteq> []"
    and "UserModel_findByEmail (users st) mail = Some usr"
    and "password_hash usr = Some h" and "h \<noteq> []" and "comparePassword env password h"
  shows "AuthService_login env st (Some mail) (Some password) = succeed env st usr (users st)"
  using assms
  by (simp add: AuthService_login_def succeed_def split: prod.splits)

lemma login_success_inv:
  assumes "AuthService_login env st email_arg password_arg = Inr (resp, st')"
  shows "\<exists>usr. usr \<in> set (users st') \<and> succeed env st usr (users st') = Inr (resp, st')"
proof -
  from assms obtain mail password where args: "email_arg = Some mail" "password_arg = Some password"
    by (cases email_arg; cases password_arg) (simp_all add: AuthService_login_def)
  from assms obtain usr where
    found: "UserModel_findByEmail (users st) mail = Some usr"
    and result: "succeed env st usr (users st) = Inr (resp, st')"
    unfolding args AuthService_login_def succeed_def
    by (auto split: if_splits option.splits prod.splits)
  have "usr \<in> set (users st)"
    using findByEmail_Some [OF found] by simp
  moreover have "users st' = users st"
    using result by (auto simp: succeed_Inr)
  ultimately show ?thesis
    using result by auto
qed

lemma googleAuth_success_inv:
  assumes "AuthService_googleAuth env st profile = Inr (resp, st')"
  shows "\<exists>usr. usr \<in> set (users st') \<and> succeed env st usr (users st') = Inr (resp, st')"
proof -
  from googleAuth_success [OF assms] obtain usr where
    "resp = fst (issue_session env (sessions st) usr)"
    "sessions st' = snd (issue_session env (sessions st) usr)"
    "usr \<in> set (users st')"
    by blast
  then show ?thesis
    by (auto simp: succeed_Inr)
qed

lemma view_without_hash:
  "fst (issue_session env r (usr \<lparr> password_hash := h \<rparr>)) = fst (issue_session env r usr)"
  by (simp add: issue_session_eq)

text \<open>
  C8. When \<open>register\<close>, \<open>login\<close> or \<open>googleAuth\<close> succeeds, there is a user of the
  resulting table for whom the session was issued: the access token is the signed
  payload carrying the user's id and email and the token identifier drawn by \<open>uuidv4\<close>
  for this call, the session cache has gained the entry of that identifier holding the
  user's id with the configured expiry as its time-to-live, and the user in the response
  is the view of six public fields. The response does not depend on the password hash
  of the user: the view has no field for it.
\<close>

theorem success_issues_session:
  "(\<forall>resp st'.
      AuthService_register env st email_arg password_arg firstName lastName = Inr (resp, st')
      \<longrightarrow> (\<exists>usr \<in> set (users st'). issued_for env st usr resp st'))
   \<and> (\<forall>resp st'.
      AuthService_login env st email_arg password_arg = Inr (resp, st')
      \<longrightarrow> (\<exists>usr \<in> set (users st'). issued_for env st usr resp st'))
   \<and> (\<forall>resp st'.
      AuthService_googleAuth env st profile = Inr (resp, st')
      \<longrightarrow> (\<exists>usr \<in> set (users st'). issued_for env st usr resp st'))
   \<and> (\<forall>r usr h.
      fst (issue_session env r (usr \<lparr> password_hash := h \<rparr>)) = fst (issue_session env r usr))"
  using register_success_inv [of env st email_arg password_arg firstName lastName]
    login_success_inv [of env st email_arg password_arg]
    googleAuth_success_inv [of env st profile]
    succeed_issued [of env st]
  by (intro conjI allI impI view_without_hash) blast+

lemma issued_for_example:
  "issued_for second_env example_state usr resp st'
     \<Longrightarrow> accessToken resp = ''jwt.t2''
         \<and> get (sessions st') (session_key ''t2'') = Some (id_user usr)
         \<and> ttl_of (sessions st') (session_key ''t2'') = Some 86400"
  by (simp add: issued_for_def second_env_def example_env_def get_def ttl_of_def)

theorem success_issues_session_witness:
  "(\<exists>resp st'.
      AuthService_register second_env example_state (Some ''new@b.com'') (Some ''secret123'')
          (Some ''N'') None = Inr (resp, st')
      \<and> (\<exists>usr \<in> set (users st'). issued_for second_env example_state usr resp st'
             \<and> accessToken resp = ''jwt.t2''
             \<and> get (sessions st') (session_key ''t2'') = Some (id_user usr)
             \<and> ttl_of (sessions st') (session_key ''t2'') = Some 86400))
   \<and> (\<exists>resp st'.
      AuthService_login second_env example_state (Some ''a@b.com'') (Some ''secret123'')
        = Inr (resp, st')
      \<and> (\<exists>usr \<in> set (users st'). issued_for second_env example_state usr resp st'
             \<and> accessToken resp = ''jwt.t2''
             \<and> get (sessions st') (session_key ''t2'') = Some (id_user usr)
             \<and> ttl_of (sessions st') (session_key ''t2'') = Some 86400))
   \<and> (\<exists>resp st'.
      AuthService_googleAuth second_env example_state known_profile = Inr (resp, st')
      \<and> (\<exists>usr \<in> set (users st'). issued_for second_env example_state usr resp st'
             \<and> accessToken resp = ''jwt.t2''
             \<and> get (sessions st') (session_key ''t2'') = Some (id_user usr)
             \<and> ttl_of (sessions st') (session_key ''t2'') = Some 86400))"
proof -
  note all = success_issues_session [where env = second_env and st = example_state
      and email_arg = "Some ''new@b.com''" and password_arg = "Some ''secret123''"
      and firstName = "Some ''N''" and lastName = None and profile = known_profile]
  note login = success_issues_session [where env = second_env and st = example_state
      and email_arg = "Some ''a@b.com''" and password_arg = "Some ''secret123''"
      and profile = known_profile]
  have rows: "users example_state = [email_user, google_user]"
    by (simp add: example_state_def)
  have low: "toLowerCase ''new@b.com'' = ''new@b.com''" "toLowerCase ''a@b.com'' = ''a@b.com''"
    by (simp_all add: toLowerCase_def lower_char_def)
  have free: "toLowerCase ''new@b.com'' \<notin> email ` set (users example_state)"
    by (simp add: low rows email_user_def google_user_def)
  have long: "6 \<le> length ''secret123''" by simp
  have fit: "insert_error (register_data second_env ''new@b.com'' ''secret123'' (Some ''N'') None)
               = None"
    by (rule register_data_fits) (simp_all add: second_env_def example_env_def fits_def)
  obtain resp1 st1 where registered:
    "AuthService_register second_env example_state (Some ''new@b.com'') (Some ''secret123'')
        (Some ''N'') None = Inr (resp1, st1)"
    unfolding register_success [OF example_state_ok test_email_examples(1) long fit free]
      succeed_def
    by blast
  have known: "UserModel_findByEmail (users example_state) ''a@b.com'' = Some email_user"
    by (simp add: UserModel_findByEmail_def rows low email_user_def)
  have hash: "password_hash email_user = Some ''hash:secret123''" "''hash:secret123'' \<noteq> []"
    "comparePassword second_env ''secret123'' ''hash:secret123''"
    by (simp_all add: email_user_def second_env_def example_env_def)
  obtain resp2 st2 where logged_in:
    "AuthService_login second_env example_state (Some ''a@b.com'') (Some ''secret123'')
       = Inr (resp2, st2)"
    unfolding login_success [OF _ _ known hash, simplified] succeed_def
    by blast
  have by_id: "UserModel_findByGoogleId (users example_state) (profile_id known_profile)
                 = Some google_user"
    by (simp add: known_profile_def UserModel_findByGoogleId_def rows email_user_def
          google_user_def)
  have mail: "first_value (emails known_profile) = Some ''other@b.com''" "''other@b.com'' \<noteq> []"
    by (simp_all add: known_profile_def first_value_def)
  obtain resp3 st3 where external:
    "AuthService_googleAuth second_env example_state known_profile = Inr (resp3, st3)"
    unfolding googleAuth_found [OF mail by_id] succeed_def
    by blast
  from all [THEN conjunct1, rule_format, OF registered]
  have one: "\<exists>usr \<in> set (users st1). issued_for second_env example_state usr resp1 st1
             \<and> accessToken resp1 = ''jwt.t2''
             \<and> get (sessions st1) (session_key ''t2'') = Some (id_user usr)
             \<and> ttl_of (sessions st1) (session_key ''t2'') = Some 86400"
    using issued_for_example by blast
  from login [THEN conjunct2, THEN conjunct1, rule_format, OF logged_in]
  have two: "\<exists>usr \<in> set (users st2). issued_for second_env example_state usr resp2 st2
             \<and> accessToken resp2 = ''jwt.t2''
             \<and> get (sessions st2) (session_key ''t2'') = Some (id_user usr)
             \<and> ttl_of (sessions st2) (session_key ''t2'') = Some 86400"
    using issued_for_example by blast
  from all [THEN conjunct2, THEN conjunct2, THEN conjunct1, rule_format, OF external]
  have three: "\<exists>usr \<in> set (users st3). issued_for second_env example_state usr resp3 st3
             \<and> accessToken resp3 = ''jwt.t2''
             \<and> get (sessions st3) (session_key ''t2'') = Some (id_user usr)
             \<and> ttl_of (sessions st3) (session_key ''t2'') = Some 86400"
    using issued_for_example by blast
  show ?thesis
    using registered one logged_in two external three by blast
qed

section \<open>The email test decides the regular expression\<close>

lemma plain_dot: "plain_char CHR ''.''"
  by (simp add: plain_char_def is_space_def)

lemma not_plain_at: "\<not> plain_char CHR ''@''"
  by (simp add: plain_char_def)

lemma test_email_pattern: "test_email s \<longleftrightarrow> email_pattern s"
proof
  assume "test_email s"
  let ?a = "takeWhile plain_char s"
  from \<open>test_email s\<close> obtain d where a: "?a \<noteq> []"
    and rest: "dropWhile plain_char s = CHR ''@'' # d"
    and d: "list_all plain_char d" and dot: "CHR ''.'' \<in> set (butlast (tl d))"
    by (auto simp: test_email_def Let_def split: list.splits)
  from dot obtain b' c' where mid: "butlast (tl d) = b' @ CHR ''.'' # c'"
    by (auto dest: split_list)
  then have "tl d \<noteq> []" by auto
  then have tl: "tl d = b' @ CHR ''.'' # c' @ [last (tl d)]"
    using mid append_butlast_last_id [of "tl d"] by simp
  moreover from \<open>tl d \<noteq> []\<close> have "d = hd d # tl d" by (cases d) auto
  ultimately have shape: "d = (hd d # b') @ ''.'' @ (c' @ [last (tl d)])"
    by simp
  have "s = ?a @ dropWhile plain_char s" by simp
  then have "s = ?a @ ''@'' @ (hd d # b') @ ''.'' @ (c' @ [last (tl d)])"
    using rest shape by simp
  moreover have "list_all plain_char ?a"
    by (auto simp: list_all_iff dest: set_takeWhileD)
  moreover have "list_all plain_char (hd d # b')" "list_all plain_char (c' @ [last (tl d)])"
    using d shape by (metis list_all_append)+
  ultimately show "email_pattern s"
    using a unfolding email_pattern_def by blast
next
  assume "email_pattern s"
  then obtain a b c where s: "s = a @ ''@'' @ b @ ''.'' @ c"
    and ne: "a \<noteq> []" "b \<noteq> []" "c \<noteq> []"
    and plain: "list_all plain_char a" "list_all plain_char b" "list_all plain_char c"
    unfolding email_pattern_def by blast
  have all_a: "\<forall>x \<in> set a. plain_char x"
    using plain(1) by (simp add: list_all_iff)
  have take: "takeWhile plain_char s = a"
    unfolding s using all_a not_plain_at by simp
  have drop: "dropWhile plain_char s = CHR ''@'' # b @ CHR ''.'' # c"
    unfolding s using all_a not_plain_at by simp
  have "list_all plain_char (b @ CHR ''.'' # c)"
    using plain plain_dot by simp
  moreover have "CHR ''.'' \<in> set (butlast (tl (b @ CHR ''.'' # c)))"
    using ne by (cases b) (simp_all add: butlast_append)
  ultimately show "test_email s"
    using ne(1) by (simp add: test_email_def take drop)
qed

section \<open>Well-formed stores stay well-formed\<close>

text \<open>
  The empty stores are well-formed, and every operation of the service that succeeds
  leaves them so, provided the table hands out non-empty identifiers. The hypotheses on
  the stores in the theorems above are therefore met in every state the service reaches.
\<close>

lemma session_values_ok_setEx:
  "session_values_ok r \<Longrightarrow> uid \<noteq> [] \<Longrightarrow> session_values_ok (setEx r key ttl uid)"
  by (auto simp: session_values_ok_def setEx_def)

lemma session_values_ok_invalidate:
  "session_values_ok r \<Longrightarrow> session_values_ok (invalidateSession r tid)"
  by (auto simp: session_values_ok_def invalidateSession_def del_def)

lemma session_values_ok_elapse:
  "session_values_ok r \<Longrightarrow> session_values_ok (elapse d r)"
  by (auto simp: session_values_ok_def elapse_def split: option.splits if_splits)

lemma succeed_well_formed:
  assumes "succeed env st usr rows' = Inr (resp, st')"
    and "session_values_ok (sessions st)" and "violation rows' = None"
    and "list_all (\<lambda>r. id_user r \<noteq> []) rows'" and "usr \<in> set rows'"
  shows "well_formed st'"
proof -
  have "id_user usr \<noteq> []"
    using assms(4,5) by (auto simp: list_all_iff)
  then have "session_values_ok (snd (issue_session env (sessions st) usr))"
    using assms(2) by (simp add: issue_session_eq session_values_ok_setEx)
  then show ?thesis
    using assms(1,3,4) by (auto simp: succeed_Inr well_formed_def)
qed

lemma register_well_formed:
  assumes "AuthService_register env st email_arg password_arg firstName lastName = Inr (resp, st')"
    and "well_formed st" and "gen_random_uuid env \<noteq> []"
  shows "well_formed st'"
proof -
  from assms(1) obtain mail password where args: "email_arg = Some mail" "password_arg = Some password"
    by (cases email_arg; cases password_arg) (simp_all add: AuthService_register_def)
  have valid: "test_email mail" "6 \<le> length password"
    using assms(1) unfolding args AuthService_register_def
    by (auto split: if_splits)
  note reg = assms(1) [unfolded args register_checked [OF valid]]
  then obtain usr rows' where
    created: "UserModel_create env (users st)
                (register_data env mail password firstName lastName) = Inr (usr, rows')"
    and result: "succeed env st usr rows' = Inr (resp, st')"
    by (auto simp: succeed_def split: option.splits sum.splits)
  have rows': "rows' = users st @ [usr]"
    using created by (rule create_Inr)
  have "violation rows' = None" "id_user usr = gen_random_uuid env"
    using created by (auto simp: UserModel_create_def new_row_id split: option.splits)
  moreover have "list_all (\<lambda>r. id_user r \<noteq> []) rows'"
    using assms(2,3) calculation(2) by (simp add: rows' well_formed_def)
  ultimately show ?thesis
    using result assms(2) rows' by (intro succeed_well_formed [OF result]) (simp_all add: well_formed_def)
qed

lemma login_well_formed:
  assumes "AuthService_login env st email_arg password_arg = Inr (resp, st')"
    and "well_formed st"
  shows "well_formed st'"
proof -
  from login_success_inv [OF assms(1)] obtain usr where
    usr: "usr \<in> set (users st')" "succeed env st usr (users st') = Inr (resp, st')"
    by blast
  from assms(1) have "users st' = users st"
    by (auto simp: AuthService_login_def split: option.splits if_splits prod.splits)
  then show ?thesis
    using usr assms(2) by (intro succeed_well_formed [OF usr(2)]) (simp_all add: well_formed_def)
qed

lemma logout_well_formed:
  "well_formed st \<Longrightarrow> well_formed (AuthService_logout st tid)"
  by (simp add: well_formed_def AuthService_logout_def session_values_ok_invalidate)

lemma empty_well_formed: "well_formed \<lparr> users = [], sessions = Map.empty \<rparr>"
  by (simp add: well_formed_def violation_def non_null_def session_values_ok_def)

lemma googleAuth_users:
  assumes "AuthService_googleAuth env st profile = Inr (resp, st')"
  shows "users st' = users st
         \<or> (violation (users st') = None
            \<and> id_user ` set (users st') \<subseteq> insert (gen_random_uuid env) (id_user ` set (users st)))"
proof -
  let ?rows = "users st"
  have "truthy (first_value (emails profile))"
    using assms googleAuth_no_email [of profile env st] by auto
  then obtain mail where mail: "first_value (emails profile) = Some mail" "mail \<noteq> []"
    by (auto simp: truthy_def split: option.splits)
  note steps = googleAuth_steps [OF mail, of env st]
  show ?thesis
  proof (cases "UserModel_findByGoogleId ?rows (profile_id profile)")
    case (Some usr)
    then have "succeed env st usr ?rows = Inr (resp, st')"
      using assms steps by simp
    then show ?thesis by (auto simp: succeed_Inr)
  next
    case None
    show ?thesis
    proof (cases "UserModel_findByEmail ?rows mail")
      case no_mail: None
      let ?row = "created_row env profile mail"
      have created: "(case insert_error (google_data profile mail) of
                        Some e \<Rightarrow> Inl e
                      | None \<Rightarrow>
                          (case violation (?rows @ [?row]) of
                             Some e \<Rightarrow> Inl e
                           | None \<Rightarrow> succeed env st ?row (?rows @ [?row]))) = Inr (resp, st')"
        using assms steps None no_mail by (simp add: create_google split: option.splits)
      then have ok: "violation (?rows @ [?row]) = None"
        by (simp split: option.splits)
      with created have "users st' = ?rows @ [?row]"
        by (auto simp: succeed_Inr split: option.splits)
      moreover have "id_user ?row = gen_random_uuid env"
        by (simp add: created_row_def new_row_id)
      ultimately show ?thesis
        using ok by auto
    next
      case (Some usr)
      let ?F = "\<lambda>r. if id_user r = id_user usr
                     then set_columns (link_updates profile usr) (current_timestamp env) r else r"
      let ?rows' = "map ?F ?rows"
      have linked: "(case update_error (link_updates profile usr) of
                       Some e \<Rightarrow> Inl e
                     | None \<Rightarrow>
                         (case violation ?rows' of
                            Some e \<Rightarrow> Inl e
                          | None \<Rightarrow>
                              (case find (\<lambda>r. id_user r = id_user usr) ?rows' of
                                 None \<Rightarrow> Inl (Error ''Failed to authenticate with Google'')
                               | Some usr' \<Rightarrow> succeed env st usr' ?rows'))) = Inr (resp, st')"
        using assms steps None Some by (simp add: update_link split: option.splits)
      then have ok: "violation ?rows' = None"
        by (simp split: option.splits)
      with linked have rows': "users st' = ?rows'"
        by (auto simp: succeed_Inr split: option.splits)
      have "id_user ` set ?rows' = set (map id_user ?rows')"
        by (simp only: set_map)
      also have "\<dots> = id_user ` set ?rows"
        by (simp only: linked_ids set_map)
      finally show ?thesis
        using ok rows' by auto
    qed
  qed
qed

lemma googleAuth_well_formed:
  assumes "AuthService_googleAuth env st profile = Inr (resp, st')"
    and "well_formed st" and "gen_random_uuid env \<noteq> []"
  shows "well_formed st'"
proof -
  from googleAuth_success_inv [OF assms(1)] obtain usr where
    usr: "usr \<in> set (users st')" "succeed env st usr (users st') = Inr (resp, st')"
    by blast
  have old: "violation (users st) = None" "\<forall>r \<in> set (users st). id_user r \<noteq> []"
    using assms(2) by (simp_all add: well_formed_def list_all_iff)
  from googleAuth_users [OF assms(1)]
  have "violation (users st') = None \<and> (\<forall>r \<in> set (users st'). id_user r \<noteq> [])"
    using old assms(3) by (elim disjE) auto
  then show ?thesis
    using usr assms(2)
    by (intro succeed_well_formed [OF usr(2)]) (simp_all add: well_formed_def list_all_iff)
qed

end
